theory Spec2Isabelle
  imports Complex_Main "HOL-Library.Word"
begin

section \<open>JavaScript strings\<close>

text \<open>
  A JavaScript string is a sequence of 16-bit code units; \<open>length\<close> and \<open>substring\<close>
  count code units. String literals of the source are ASCII and are written through
  \<open>js\<close>.
\<close>

type_synonym code_unit = "16 word"
type_synonym jsstring = "code_unit list"

definition cu :: "char \<Rightarrow> code_unit" where
  "cu c = word_of_nat (of_char c)"

definition js :: "string \<Rightarrow> jsstring" where
  "js s = map cu s"

subsection \<open>Character classes of the regular expressions\<close>

text \<open>
  None of the three regular expressions carries the \<open>u\<close> flag, so \<open>\w\<close> and \<open>\b\<close> use
  the 63 basic word characters \<open>[A-Za-z0-9_]\<close>.
\<close>

definition isWordChar :: "code_unit \<Rightarrow> bool" where
  "isWordChar c \<longleftrightarrow>
     (0x41 \<le> c \<and> c \<le> 0x5A) \<or> (0x61 \<le> c \<and> c \<le> 0x7A) \<or> (0x30 \<le> c \<and> c \<le> 0x39) \<or> c = 0x5F"

text \<open>\<open>\s\<close>: the WhiteSpace and LineTerminator code units of ECMAScript.\<close>

definition isWhiteSpace :: "code_unit \<Rightarrow> bool" where
  "isWhiteSpace c \<longleftrightarrow>
     c \<in> {0x09, 0x0A, 0x0B, 0x0C, 0x0D, 0x20, 0xA0, 0x1680, 0x2028, 0x2029, 0x202F,
           0x205F, 0x3000, 0xFEFF} \<or> (0x2000 \<le> c \<and> c \<le> 0x200A)"

text \<open>
  The \<open>i\<close> flag compares canonicalised code units. Without the \<open>u\<close> flag the
  canonical form is the upper-case mapping, except that a code unit from 128 on is
  never mapped below 128. Every character the three patterns compare against is ASCII,
  and a code unit has the canonical form of an ASCII character exactly when it is that
  character up to ASCII case. So the ASCII part of the mapping is all the patterns
  observe, and it is the part written here.
\<close>

definition canonicalize :: "code_unit \<Rightarrow> code_unit" where
  "canonicalize c = (if 0x61 \<le> c \<and> c \<le> 0x7A then c - 0x20 else c)"

text \<open>Does the literal \<open>p\<close> match at the start of \<open>s\<close>, ignoring case?\<close>

fun matchLiteral :: "jsstring \<Rightarrow> jsstring \<Rightarrow> bool" where
  "matchLiteral [] s = True"
| "matchLiteral (p # ps) [] = False"
| "matchLiteral (p # ps) (c # cs) = (canonicalize p = canonicalize c \<and> matchLiteral ps cs)"

subsection \<open>The three patterns, matched at the start of a string\<close>

text \<open>
  Each matcher answers, for the pattern anchored at the first code unit of \<open>s\<close>, the
  number of code units of the match that the backtracking matcher of ECMAScript
  finds first, or \<open>None\<close> when no alternative matches. No pattern looks behind its
  first character, so the text before the match position plays no role.
\<close>

text \<open>
  \<^verbatim>\<open>/<script\b[^<]*(?:(?!<\/script>)<[^<]*)*<\/script>/gi\<close>

  After \<open><script\<close>, the assertion \<open>\b\<close> holds when the next code unit is not a word
  character (the \<open>t\<close> before it is one), the end of the input included. \<open>[^<]*\<close> is
  greedy and stops in front of the next \<open><\<close> or at the end; a shorter run is followed
  by a code unit other than \<open><\<close>, where neither the group nor \<open></script>\<close> can
  start, so backtracking into it never succeeds. At a \<open><\<close> the group is tried first:
  it is taken exactly when \<open></script>\<close> does not start there, and then runs to the
  next \<open><\<close>; where \<open></script>\<close> does start, the group fails on its lookahead and the
  closing literal ends the match. \<open>scanToClose\<close> is this loop; it answers the text
  left after the match.
\<close>

function scanToClose :: "jsstring \<Rightarrow> jsstring option" where
  "scanToClose [] = None"
| "scanToClose (c # cs) =
     (if matchLiteral (js ''</script>'') (c # cs) then Some (drop 9 (c # cs))
      else scanToClose (dropWhile (\<lambda>x. x \<noteq> 0x3C) cs))"
  by pat_completeness auto
termination
  by (relation "measure length") (auto simp: less_Suc_eq_le length_dropWhile_le)

definition matchScript :: "jsstring \<Rightarrow> nat option" where
  "matchScript s =
     (if matchLiteral (js ''<script'') s
         \<and> (case drop 7 s of [] \<Rightarrow> True | c # _ \<Rightarrow> \<not> isWordChar c)
      then (case scanToClose (dropWhile (\<lambda>x. x \<noteq> 0x3C) (drop 7 s)) of
              None \<Rightarrow> None
            | Some rest \<Rightarrow> Some (length s - length rest))
      else None)"

text \<open>\<^verbatim>\<open>/javascript:/gi\<close>\<close>

definition matchJavascript :: "jsstring \<Rightarrow> nat option" where
  "matchJavascript s = (if matchLiteral (js ''javascript:'') s then Some 11 else None)"

text \<open>
  \<^verbatim>\<open>/on\w+\s*=/gi\<close>

  \<open>\w+\<close> and \<open>\s*\<close> are greedy. A shorter run of word characters is followed by a
  word character, which neither \<open>\s*\<close> nor \<open>=\<close> accepts, and a shorter run of white
  space is followed by white space, which \<open>=\<close> does not accept: only the longest runs
  can lead to a match.
\<close>

definition matchHandler :: "jsstring \<Rightarrow> nat option" where
  "matchHandler s =
     (if matchLiteral (js ''on'') s then
        (let w = takeWhile isWordChar (drop 2 s);
             r = dropWhile isWordChar (drop 2 s);
             sp = takeWhile isWhiteSpace r
         in if w \<noteq> [] \<and> matchLiteral (js ''='') (dropWhile isWhiteSpace r)
            then Some (2 + length w + length sp + 1) else None)
      else None)"

subsection \<open>Global replacement by the empty string\<close>

text \<open>
  \<open>s.replace(re, '')\<close> with the \<open>g\<close> flag: the match positions are tried from left
  to right; a match is dropped and the search goes on behind it. After an empty match
  the search advances by one code unit (none of the three patterns has one).
\<close>

function replaceAll :: "(jsstring \<Rightarrow> nat option) \<Rightarrow> jsstring \<Rightarrow> jsstring" where
  "replaceAll m [] = []"
| "replaceAll m (c # cs) =
     (case m (c # cs) of
        None \<Rightarrow> c # replaceAll m cs
      | Some n \<Rightarrow> (if n = 0 then c # replaceAll m cs else replaceAll m (drop n (c # cs))))"
  by pat_completeness auto
termination
  by (relation "measure (\<lambda>(m, s). length s)") auto

text \<open>The three replacements of the source, in its order.\<close>

definition removePatterns :: "jsstring \<Rightarrow> jsstring" where
  "removePatterns s =
     replaceAll matchHandler (replaceAll matchJavascript (replaceAll matchScript s))"

text \<open>What \<open>sanitizeObject\<close> assigns to a property that holds the string \<open>s\<close>.\<close>

definition sanitizeString :: "jsstring \<Rightarrow> jsstring" where
  "sanitizeString s =
     (let r = removePatterns s in if length r > 10000 then take 10000 r else r)"

section \<open>Request bodies\<close>

text \<open>
  The body is what the body parser produced: a tree of JSON values, or \<open>undefined\<close>
  when no parser has run. A number is a finite double, embedded in the reals; the code
  never inspects one. An object is the list of its own enumerable properties in
  \<open>for-in\<close> order; an array is the list of its elements, which \<open>for-in\<close> enumerates
  by index. The tree is owned by the request and nothing in it is shared.
\<close>

datatype jsval =
    JUndefined
  | JNull
  | JBool bool
  | JNum real
  | JStr jsstring
  | JArr "jsval list"
  | JObj "(jsstring \<times> jsval) list"

datatype error = TypeError

text \<open>\<open>typeof\<close> answers one of a few fixed names, kept as HOL strings.\<close>

fun typeof :: "jsval \<Rightarrow> string" where
  "typeof JUndefined = ''undefined''"
| "typeof JNull = ''object''"
| "typeof (JBool b) = ''boolean''"
| "typeof (JNum n) = ''number''"
| "typeof (JStr s) = ''string''"
| "typeof (JArr xs) = ''object''"
| "typeof (JObj ps) = ''object''"

text \<open>JavaScript truthiness, for \<open>req.body && ...\<close>.\<close>

fun truthy :: "jsval \<Rightarrow> bool" where
  "truthy JUndefined = False"
| "truthy JNull = False"
| "truthy (JBool b) = b"
| "truthy (JNum n) = (n \<noteq> 0)"
| "truthy (JStr s) = (s \<noteq> [])"
| "truthy (JArr xs) = True"
| "truthy (JObj ps) = True"

text \<open>
  The values \<open>obj[key]\<close> for the keys that \<open>for (const key in obj)\<close> enumerates, in
  that order. The prototypes of parsed objects and arrays have no enumerable
  property, so these are the own properties. Over \<open>null\<close>, \<open>undefined\<close>, a number or
  a boolean the loop does not run. Over a string primitive it enumerates the indices,
  but \<open>getObjectDepth\<close> returns before its loop, and \<open>sanitizeObject\<close> would assign
  to an index of the primitive, which in this non-strict module has no effect; the
  model gives a primitive no properties.
\<close>

fun ownValues :: "jsval \<Rightarrow> jsval list" where
  "ownValues (JArr xs) = xs"
| "ownValues (JObj ps) = map snd ps"
| "ownValues v = []"

text \<open>The object with its property values replaced, keys and order kept.\<close>

fun withOwnValues :: "jsval \<Rightarrow> jsval list \<Rightarrow> jsval" where
  "withOwnValues (JArr xs) vs = JArr vs"
| "withOwnValues (JObj ps) vs = JObj (zip (map fst ps) vs)"
| "withOwnValues v vs = v"

fun stringValue :: "jsval \<Rightarrow> jsstring" where
  "stringValue (JStr s) = s"
| "stringValue v = []"

text \<open>
  The call \<open>obj.hasOwnProperty(key)\<close> for a key that \<open>for-in\<close> enumerated. The method
  is looked up on \<open>obj\<close> first: an own property named \<open>hasOwnProperty\<close> shadows the
  inherited method, and since a parsed value is never a function the call then throws a
  TypeError. Otherwise \<open>Object.prototype.hasOwnProperty\<close> runs and answers \<open>true\<close>,
  the key being an own one. An array has no own property of that name. Neither function
  below adds or removes a key, so the answer is the same in every iteration of a loop.
\<close>

definition hasOwnPropertyCall :: "jsval \<Rightarrow> error + bool" where
  "hasOwnPropertyCall obj =
     (case obj of
        JObj ps \<Rightarrow> if js ''hasOwnProperty'' \<in> fst ` set ps then Inl TypeError else Inr True
      | _ \<Rightarrow> Inr True)"

subsection \<open>Loops over the own properties\<close>

text \<open>A loop that threads a local variable through its body and stops at a throw.\<close>

fun forIn :: "'a list \<Rightarrow> 's \<Rightarrow> ('a \<Rightarrow> 's \<Rightarrow> error + 's) \<Rightarrow> error + 's" where
  "forIn [] s body = Inr s"
| "forIn (x # xs) s body =
     (case body x s of Inl e \<Rightarrow> Inl e | Inr s' \<Rightarrow> forIn xs s' body)"

text \<open>
  A loop whose body assigns to the property it visits. A throw leaves the properties
  already visited updated, the one being visited as far as its own update got, and the
  rest untouched.
\<close>

fun forInUpdate :: "'a list \<Rightarrow> ('a \<Rightarrow> 'a \<times> error option) \<Rightarrow> 'a list \<times> error option" where
  "forInUpdate [] body = ([], None)"
| "forInUpdate (x # xs) body =
     (case body x of
        (x', Some e) \<Rightarrow> (x' # xs, Some e)
      | (x', None) \<Rightarrow> (case forInUpdate xs body of (xs', r) \<Rightarrow> (x' # xs', r)))"

lemma forIn_cong [fundef_cong]:
  "xs = ys \<Longrightarrow> s = t \<Longrightarrow> (\<And>x u. x \<in> set ys \<Longrightarrow> f x u = g x u)
     \<Longrightarrow> forIn xs s f = forIn ys t g"
  by (induction ys arbitrary: xs s t) (auto split: sum.splits)

lemma forInUpdate_cong [fundef_cong]:
  "xs = ys \<Longrightarrow> (\<And>x. x \<in> set ys \<Longrightarrow> f x = g x) \<Longrightarrow> forInUpdate xs f = forInUpdate ys g"
  by (induction ys arbitrary: xs) (auto split: prod.splits option.splits)

lemma size_ownValues:
  assumes "v \<in> set (ownValues obj)"
  shows "size v < size obj"
proof (cases obj)
  case (JArr xs)
  with assms have "size v \<le> size_list size xs"
    by (auto intro: size_list_estimation')
  with JArr show ?thesis by simp
next
  case (JObj ps)
  with assms obtain k where "(k, v) \<in> set ps" by auto
  then have "size_prod (\<lambda>_. 0) size (k, v) \<le> size_list (size_prod (\<lambda>_. 0) size) ps"
    by (intro size_list_estimation') auto
  with JObj show ?thesis by simp
qed (use assms in auto)

subsection \<open>getObjectDepth\<close>

function getObjectDepth :: "jsval \<Rightarrow> nat \<Rightarrow> error + nat" where
  "getObjectDepth obj currentDepth =
     (if typeof obj \<noteq> ''object'' \<or> obj = JNull then Inr currentDepth
      else forIn (ownValues obj) currentDepth (\<lambda>value maxDepth.
             case hasOwnPropertyCall obj of
               Inl e \<Rightarrow> Inl e
             | Inr False \<Rightarrow> Inr maxDepth
             | Inr True \<Rightarrow>
                 (case getObjectDepth value (currentDepth + 1) of
                    Inl e \<Rightarrow> Inl e
                  | Inr depth \<Rightarrow> Inr (max maxDepth depth))))"
  by pat_completeness auto
termination
  by (relation "measure (\<lambda>(obj, currentDepth). size obj)") (auto simp: size_ownValues)

subsection \<open>sanitizeObject\<close>

text \<open>
  The function mutates \<open>obj\<close> in place and returns nothing; the model returns the
  object as the call leaves it, and the error when the call ends by a throw.
\<close>

function sanitizeObject :: "jsval \<Rightarrow> jsval \<times> error option" where
  "sanitizeObject obj =
     (case forInUpdate (ownValues obj) (\<lambda>value.
             case hasOwnPropertyCall obj of
               Inl e \<Rightarrow> (value, Some e)
             | Inr False \<Rightarrow> (value, None)
             | Inr True \<Rightarrow>
                 (if typeof value = ''string''
                  then (JStr (sanitizeString (stringValue value)), None)
                  else if typeof value = ''object'' \<and> value \<noteq> JNull
                  then sanitizeObject value
                  else (value, None)))
      of (values, r) \<Rightarrow> (withOwnValues obj values, r))"
  by pat_completeness auto
termination
  by (relation "measure size") (auto simp: size_ownValues)

section \<open>The middleware\<close>

subsection \<open>parseInt and String.prototype.includes\<close>

text \<open>
  \<open>parseInt(string)\<close> with no radix: leading white space is skipped, a sign is read,
  a prefix \<open>0x\<close> or \<open>0X\<close> selects radix 16, and the longest run of digits of the
  radix is the number; with no digit the result is \<open>NaN\<close>, here \<open>None\<close>. The source
  only compares the result with \<open>1048576\<close>. The conversion of the digits to a double is
  monotone and exact up to \<open>2^53\<close>, so the comparison has the outcome it has on the
  integer itself, which is what the model returns.
\<close>

definition digitValue :: "code_unit \<Rightarrow> nat option" where
  "digitValue c =
     (if 0x30 \<le> c \<and> c \<le> 0x39 then Some (unat c - 0x30)
      else if 0x61 \<le> c \<and> c \<le> 0x7A then Some (unat c - 0x61 + 10)
      else if 0x41 \<le> c \<and> c \<le> 0x5A then Some (unat c - 0x41 + 10)
      else None)"

definition isRadixDigit :: "nat \<Rightarrow> code_unit \<Rightarrow> bool" where
  "isRadixDigit R c = (case digitValue c of None \<Rightarrow> False | Some d \<Rightarrow> d < R)"

definition mathInt :: "nat \<Rightarrow> jsstring \<Rightarrow> nat" where
  "mathInt R Z = foldl (\<lambda>a c. a * R + (case digitValue c of None \<Rightarrow> 0 | Some d \<Rightarrow> d)) 0 Z"

definition parseInt :: "jsstring \<Rightarrow> int option" where
  "parseInt inputString =
     (let S = dropWhile isWhiteSpace inputString;
          sign = (if take 1 S = js ''-'' then - 1 else 1);
          S = (if take 1 S = js ''+'' \<or> take 1 S = js ''-'' then drop 1 S else S);
          stripPrefix = (take 2 S = js ''0x'' \<or> take 2 S = js ''0X'');
          R = (if stripPrefix then 16 else 10);
          S = (if stripPrefix then drop 2 S else S);
          Z = takeWhile (isRadixDigit R) S
      in if Z = [] then None else Some (sign * int (mathInt R Z)))"

text \<open>\<open>a > b\<close> where \<open>a\<close> may be \<open>NaN\<close>: every comparison with \<open>NaN\<close> is false.\<close>

definition jsGreater :: "int option \<Rightarrow> int \<Rightarrow> bool" where
  "jsGreater a b = (case a of None \<Rightarrow> False | Some n \<Rightarrow> n > b)"

fun startsWith :: "jsstring \<Rightarrow> jsstring \<Rightarrow> bool" where
  "startsWith s [] = True"
| "startsWith [] (t # ts) = False"
| "startsWith (c # cs) (t # ts) = (c = t \<and> startsWith cs ts)"

text \<open>\<open>s.includes(t)\<close>: \<open>t\<close> occurs in \<open>s\<close> as a substring (case-sensitive).\<close>

fun includes_str :: "jsstring \<Rightarrow> jsstring \<Rightarrow> bool" where
  "includes_str [] t = (t = [])"
| "includes_str (c # cs) t = (startsWith (c # cs) t \<or> includes_str cs t)"

subsection \<open>Request, response and securityMiddleware\<close>

text \<open>
  \<open>req.headers\<close> maps the lower-cased header names to their values; a header that was
  not sent is \<open>undefined\<close>, here \<open>None\<close>.
\<close>

record request =
  headers :: "jsstring \<rightharpoonup> jsstring"
  body :: jsval

text \<open>
  How a call of the middleware ends: by \<open>return res.status(code).json(payload)\<close>, by
  \<open>next()\<close>, or by an exception that leaves the function.
\<close>

datatype outcome = Responded nat jsval | Next | Thrown error

text \<open>
  What a call leaves behind: how it ended, the response headers (those that were set
  before the call, updated by the calls of \<open>res.setHeader\<close>), and \<open>req.body\<close>.
\<close>

record result =
  outcome :: outcome
  resHeaders :: "jsstring \<rightharpoonup> jsstring"
  reqBody :: jsval

text \<open>\<open>h || d\<close> for a header value: \<open>undefined\<close> and the empty string are falsy.\<close>

definition orDefault :: "jsstring option \<Rightarrow> jsstring \<Rightarrow> jsstring" where
  "orDefault h d = (case h of None \<Rightarrow> d | Some s \<Rightarrow> if s = [] then d else s)"

definition MAX_SIZE :: int where
  "MAX_SIZE = 1048576"

definition MAX_DEPTH :: nat where
  "MAX_DEPTH = 10"

definition allowedTypes :: "jsstring list" where
  "allowedTypes =
     [js ''application/json'', js ''application/x-www-form-urlencoded'', js ''multipart/form-data'']"

text \<open>The three rejection payloads; \<open>maxSize\<close> is the template literal filled in.\<close>

definition tooLargePayload :: jsval where
  "tooLargePayload =
     JObj [(js ''success'', JBool False),
           (js ''error'', JStr (js ''Request entity too large'')),
           (js ''maxSize'', JStr (js ''1048576 bytes''))]"

definition unsupportedTypePayload :: jsval where
  "unsupportedTypePayload =
     JObj [(js ''success'', JBool False),
           (js ''error'', JStr (js ''Unsupported media type'')),
           (js ''allowedTypes'', JArr (map JStr allowedTypes))]"

definition tooDeepPayload :: jsval where
  "tooDeepPayload =
     JObj [(js ''success'', JBool False),
           (js ''error'', JStr (js ''Request object too deeply nested'')),
           (js ''maxDepth'', JNum (real MAX_DEPTH))]"

text \<open>\<open>const contentLength = parseInt(req.headers['content-length'] || '0')\<close>\<close>

definition contentLength :: "request \<Rightarrow> int option" where
  "contentLength req = parseInt (orDefault (headers req (js ''content-length'')) (js ''0''))"

text \<open>\<open>const contentType = req.headers['content-type'] || ''\<close>\<close>

definition contentType :: "request \<Rightarrow> jsstring" where
  "contentType req = orDefault (headers req (js ''content-type'')) []"

text \<open>
  The second argument is the response's header table before the call; \<open>setHeaders\<close>
  is that table after the two calls of \<open>res.setHeader\<close>, which only the path to
  \<open>next()\<close> makes. A rejection returns before them. An exception leaves \<open>req.body\<close>
  as far as \<open>sanitizeObject\<close> got.
\<close>

definition securityMiddleware :: "request \<Rightarrow> (jsstring \<rightharpoonup> jsstring) \<Rightarrow> result" where
  "securityMiddleware req res =
     (if jsGreater (contentLength req) MAX_SIZE
      then \<lparr>outcome = Responded 413 tooLargePayload, resHeaders = res, reqBody = body req\<rparr>
      else if contentType req \<noteq> []
              \<and> \<not> list_ex (\<lambda>type. includes_str (contentType req) type) allowedTypes
      then \<lparr>outcome = Responded 415 unsupportedTypePayload, resHeaders = res,
            reqBody = body req\<rparr>
      else
     (let setHeaders = res(js ''X-RateLimit-Limit'' \<mapsto> js ''100'',
                           js ''X-Content-Type-Options'' \<mapsto> js ''nosniff'')
      in if truthy (body req) \<and> typeof (body req) = ''object''
         then (case getObjectDepth (body req) 0 of
                 Inl e \<Rightarrow> \<lparr>outcome = Thrown e, resHeaders = res, reqBody = body req\<rparr>
               | Inr depth \<Rightarrow>
                   if depth > MAX_DEPTH
                   then \<lparr>outcome = Responded 400 tooDeepPayload, resHeaders = res,
                         reqBody = body req\<rparr>
                   else (case sanitizeObject (body req) of
                           (body', Some e) \<Rightarrow>
                             \<lparr>outcome = Thrown e, resHeaders = res, reqBody = body'\<rparr>
                         | (body', None) \<Rightarrow>
                             \<lparr>outcome = Next, resHeaders = setHeaders, reqBody = body'\<rparr>))
         else \<lparr>outcome = Next, resHeaders = setHeaders, reqBody = body req\<rparr>))"

section \<open>Notions of the specification\<close>

text \<open>
  The skeleton of a body: every string leaf emptied, everything else kept. Two bodies
  with the same skeleton have the same nesting, the same keys in every object, the
  same number of elements in every array and the same leaves other than strings.
\<close>

primrec shape :: "jsval \<Rightarrow> jsval" where
  "shape JUndefined = JUndefined"
| "shape JNull = JNull"
| "shape (JBool b) = JBool b"
| "shape (JNum n) = JNum n"
| "shape (JStr s) = JStr []"
| "shape (JArr xs) = JArr (map shape xs)"
| "shape (JObj ps) = JObj (map (map_prod id shape) ps)"

text \<open>Is the value a mapping or a sequence?\<close>

definition isContainer :: "jsval \<Rightarrow> bool" where
  "isContainer v \<longleftrightarrow> typeof v = ''object'' \<and> v \<noteq> JNull"

text \<open>
  The nesting depth in the specification's words: a scalar has the depth \<open>d\<close> of its
  ancestor count, a container the greatest depth of its children, each of which has
  one ancestor more; an empty container has its own ancestor count.
\<close>

function specDepth :: "jsval \<Rightarrow> nat \<Rightarrow> nat" where
  "specDepth v d =
     (if isContainer v \<and> ownValues v \<noteq> []
      then Max (set (map (\<lambda>child. specDepth child (d + 1)) (ownValues v)))
      else d)"
  by pat_completeness auto
termination
  by (relation "measure (\<lambda>(v, d). size v)") (auto simp: size_ownValues)

text \<open>
  No object of the tree has an own property named \<open>hasOwnProperty\<close>: the bodies on
  which every call \<open>obj.hasOwnProperty(key)\<close> of a traversal reaches the inherited
  method.
\<close>

function shadowFree :: "jsval \<Rightarrow> bool" where
  "shadowFree v \<longleftrightarrow> hasOwnPropertyCall v = Inr True \<and> list_all shadowFree (ownValues v)"
  by pat_completeness auto
termination
  by (relation "measure size") (auto simp: size_ownValues)

text \<open>
  Sanitizing every string below a container, whatever the kind of the containers on
  its path: \<open>sanitizeValue\<close> is what becomes of a property value or an element,
  \<open>sanitizeDeep\<close> what becomes of the root, which is itself not a property.
\<close>

primrec sanitizeValue :: "jsval \<Rightarrow> jsval" where
  "sanitizeValue JUndefined = JUndefined"
| "sanitizeValue JNull = JNull"
| "sanitizeValue (JBool b) = JBool b"
| "sanitizeValue (JNum n) = JNum n"
| "sanitizeValue (JStr s) = JStr (sanitizeString s)"
| "sanitizeValue (JArr xs) = JArr (map sanitizeValue xs)"
| "sanitizeValue (JObj ps) = JObj (map (map_prod id sanitizeValue) ps)"

definition sanitizeDeep :: "jsval \<Rightarrow> jsval" where
  "sanitizeDeep obj = withOwnValues obj (map sanitizeValue (ownValues obj))"

text \<open>An object chain \<open>{a: {a: ... v}}\<close> of \<open>n\<close> levels around \<open>v\<close>.\<close>

fun nested :: "nat \<Rightarrow> jsval \<Rightarrow> jsval" where
  "nested 0 v = v"
| "nested (Suc n) v = JObj [(js ''a'', nested n v)]"

section \<open>Evaluation and basic facts\<close>

declare getObjectDepth.simps [simp del] sanitizeObject.simps [simp del]
  specDepth.simps [simp del] shadowFree.simps [simp del]

lemmas string_eval = js_def cu_def canonicalize_def isWordChar_def isWhiteSpace_def

lemmas parseInt_eval = parseInt_def isRadixDigit_def digitValue_def mathInt_def Let_def

lemmas middleware_eval = securityMiddleware_def contentLength_def contentType_def
  orDefault_def jsGreater_def MAX_SIZE_def MAX_DEPTH_def allowedTypes_def

lemma parseInt_zero: "parseInt (js ''0'') = Some 0"
  by (simp add: parseInt_eval string_eval)

lemma parseInt_Nil: "parseInt [] = None"
  by (simp add: parseInt_def Let_def)

lemma header_names_differ: "js ''content-length'' \<noteq> js ''content-type''"
  by (simp add: js_def cu_def)

lemma contentLength_cases:
  "contentLength req =
     (case headers req (js ''content-length'') of
        None \<Rightarrow> Some 0
      | Some s \<Rightarrow> if s = [] then Some 0 else parseInt s)"
  by (simp add: contentLength_def orDefault_def parseInt_zero split: option.splits)

lemma contentType_update:
  "contentType (req\<lparr>headers := (headers req)(js ''content-length'' \<mapsto> v)\<rparr>) = contentType req"
  using header_names_differ by (simp add: contentType_def)

text \<open>The middleware reads nothing of the request but these three.\<close>

lemma securityMiddleware_reads:
  "jsGreater (contentLength req') MAX_SIZE = jsGreater (contentLength req) MAX_SIZE
   \<Longrightarrow> contentType req' = contentType req \<Longrightarrow> body req' = body req
   \<Longrightarrow> securityMiddleware req' res = securityMiddleware req res"
  by (simp add: securityMiddleware_def Let_def split: sum.splits prod.splits option.splits)

text \<open>\<open>includes_str\<close> is the substring relation.\<close>

lemma startsWith_iff: "startsWith s t \<longleftrightarrow> (\<exists>q. s = t @ q)"
  by (induction s t rule: startsWith.induct) auto

lemma includes_str_iff: "includes_str s t \<longleftrightarrow> (\<exists>p q. s = p @ t @ q)"
proof (induction s)
  case Nil
  show ?case by simp
next
  case (Cons c cs)
  show ?case
  proof
    assume "includes_str (c # cs) t"
    then consider "startsWith (c # cs) t" | "includes_str cs t" by auto
    then show "\<exists>p q. c # cs = p @ t @ q"
    proof cases
      case 1
      then obtain q where "c # cs = [] @ t @ q" by (auto simp: startsWith_iff)
      then show ?thesis by blast
    next
      case 2
      with Cons obtain p q where "cs = p @ t @ q" by blast
      then have "c # cs = (c # p) @ t @ q" by simp
      then show ?thesis by blast
    qed
  next
    assume "\<exists>p q. c # cs = p @ t @ q"
    then obtain p q where pq: "c # cs = p @ t @ q" by blast
    show "includes_str (c # cs) t"
    proof (cases p)
      case Nil
      with pq have "startsWith (c # cs) t" by (auto simp: startsWith_iff)
      then show ?thesis by simp
    next
      case (Cons a p')
      with pq have "cs = p' @ t @ q" by simp
      with Cons.IH have "includes_str cs t" by blast
      then show ?thesis by simp
    qed
  qed
qed

subsection \<open>Equations by constructor\<close>

lemma shadowFree_eval [simp]:
  "shadowFree JUndefined" "shadowFree JNull" "shadowFree (JBool b)" "shadowFree (JNum n)"
  "shadowFree (JStr s)"
  "shadowFree (JArr xs) \<longleftrightarrow> list_all shadowFree xs"
  "shadowFree (JObj ps) \<longleftrightarrow>
     js ''hasOwnProperty'' \<notin> fst ` set ps \<and> list_all shadowFree (map snd ps)"
  by (subst shadowFree.simps, simp add: hasOwnPropertyCall_def)+

lemma specDepth_eval [simp]:
  "specDepth JUndefined d = d" "specDepth JNull d = d" "specDepth (JBool b) d = d"
  "specDepth (JNum n) d = d" "specDepth (JStr s) d = d"
  "specDepth (JArr xs) d =
     (if xs = [] then d else Max (set (map (\<lambda>child. specDepth child (d + 1)) xs)))"
  "specDepth (JObj ps) d =
     (if ps = [] then d else Max (set (map (\<lambda>child. specDepth child (d + 1)) (map snd ps))))"
  by (subst specDepth.simps, simp add: isContainer_def)+

lemma isContainer_eval [simp]:
  "\<not> isContainer JUndefined" "\<not> isContainer JNull" "\<not> isContainer (JBool b)"
  "\<not> isContainer (JNum n)" "\<not> isContainer (JStr s)"
  "isContainer (JArr xs)" "isContainer (JObj ps)"
  by (simp_all add: isContainer_def)

section \<open>The two traversals\<close>

lemma error_is_TypeError: "(e::error) = TypeError"
  by (cases e)

lemma hasOwnPropertyCall_cases:
  "hasOwnPropertyCall v = Inr True \<or> hasOwnPropertyCall v = Inl TypeError"
  by (simp add: hasOwnPropertyCall_def split: jsval.splits)

lemma hasOwnPropertyCall_throws_nonempty:
  "hasOwnPropertyCall v = Inl e \<Longrightarrow> isContainer v \<and> ownValues v \<noteq> []"
  by (auto simp: hasOwnPropertyCall_def isContainer_def split: jsval.splits if_splits)

lemma scalar_ownValues: "\<not> isContainer v \<Longrightarrow> ownValues v = []"
  by (cases v) (simp_all add: isContainer_def)

lemma scalar_hasOwnPropertyCall: "\<not> isContainer v \<Longrightarrow> hasOwnPropertyCall v = Inr True"
  by (cases v) (simp_all add: isContainer_def hasOwnPropertyCall_def)

lemma scalar_shadowFree: "\<not> isContainer v \<Longrightarrow> shadowFree v"
  by (subst shadowFree.simps) (simp add: scalar_ownValues scalar_hasOwnPropertyCall)

lemma shadowFree_child: "shadowFree v \<Longrightarrow> x \<in> set (ownValues v) \<Longrightarrow> shadowFree x"
  by (subst (asm) shadowFree.simps) (simp add: list_all_iff)

lemma shadowFree_call: "shadowFree v \<Longrightarrow> hasOwnPropertyCall v = Inr True"
  by (subst (asm) shadowFree.simps) simp

subsection \<open>forIn\<close>

lemma forIn_throwing: "forIn xs s (\<lambda>x acc. Inl e) = (if xs = [] then Inr s else Inl e)"
  by (cases xs) simp_all

lemma forIn_max:
  fixes g :: "'a \<Rightarrow> nat"
  shows "(\<And>x. x \<in> set xs \<Longrightarrow> f x = Inr (g x)) \<Longrightarrow>
   forIn xs m (\<lambda>x acc. case f x of Inl e \<Rightarrow> Inl e | Inr d \<Rightarrow> Inr (max acc d))
     = Inr (fold max (map g xs) m)"
  by (induction xs arbitrary: m) (simp_all add: max.commute)

lemma forIn_returns:
  "forIn xs m (\<lambda>x acc. case f x of Inl e \<Rightarrow> Inl e | Inr d \<Rightarrow> Inr (h acc d)) = Inr r
   \<Longrightarrow> x \<in> set xs \<Longrightarrow> \<exists>d. f x = Inr d"
  by (induction xs arbitrary: m) (auto split: sum.splits)

lemma fold_max_Max:
  fixes m :: nat
  assumes "xs \<noteq> []" and "\<And>x. x \<in> set xs \<Longrightarrow> m \<le> x"
  shows "fold max xs m = Max (set xs)"
proof -
  have "fold max xs m = Max (set (m # xs))"
    by (simp only: Max.set_eq_fold)
  also have "\<dots> = max m (Max (set xs))"
    using assms(1) by simp
  also have "\<dots> = Max (set xs)"
  proof -
    from assms(1) obtain x where x: "x \<in> set xs" by (cases xs) auto
    then have "m \<le> x" by (rule assms(2))
    also from x have "x \<le> Max (set xs)" by simp
    finally show ?thesis by simp
  qed
  finally show ?thesis .
qed

subsection \<open>getObjectDepth\<close>

lemma getObjectDepth_scalar: "\<not> isContainer v \<Longrightarrow> getObjectDepth v d = Inr d"
  by (subst getObjectDepth.simps) (auto simp: isContainer_def)

lemma getObjectDepth_loop:
  "isContainer v \<Longrightarrow> hasOwnPropertyCall v = Inr True \<Longrightarrow>
   getObjectDepth v d =
     forIn (ownValues v) d (\<lambda>value maxDepth.
        case getObjectDepth value (d + 1) of
          Inl e \<Rightarrow> Inl e
        | Inr depth \<Rightarrow> Inr (max maxDepth depth))"
  by (subst getObjectDepth.simps) (simp add: isContainer_def)

lemma getObjectDepth_shadowed:
  "hasOwnPropertyCall v = Inl e \<Longrightarrow> getObjectDepth v d = Inl e"
  using hasOwnPropertyCall_throws_nonempty [of v e]
  by (subst getObjectDepth.simps) (simp add: isContainer_def forIn_throwing)

lemma specDepth_ge: "d \<le> specDepth v d"
proof (induction v d rule: specDepth.induct)
  case (1 v d)
  show ?case
  proof (cases "isContainer v \<and> ownValues v \<noteq> []")
    case True
    then obtain x where x: "x \<in> set (ownValues v)"
      by (cases "ownValues v") auto
    with 1 True have "d + 1 \<le> specDepth x (d + 1)" by blast
    also have "\<dots> \<le> Max (set (map (\<lambda>child. specDepth child (d + 1)) (ownValues v)))"
      using x by (intro Max_ge) auto
    finally show ?thesis
      using True by (subst specDepth.simps) simp
  next
    case False
    then show ?thesis by (subst specDepth.simps) auto
  qed
qed

lemma getObjectDepth_shadowFree: "shadowFree v \<Longrightarrow> getObjectDepth v d = Inr (specDepth v d)"
proof (induction v d rule: specDepth.induct)
  case (1 v d)
  show ?case
  proof (cases "isContainer v \<and> ownValues v \<noteq> []")
    case True
    have children: "getObjectDepth x (d + 1) = Inr (specDepth x (d + 1))"
      if "x \<in> set (ownValues v)" for x
      using 1 True that shadowFree_child by blast
    have "getObjectDepth v d
            = Inr (fold max (map (\<lambda>child. specDepth child (d + 1)) (ownValues v)) d)"
      using True shadowFree_call [OF "1.prems"] children
      by (simp add: getObjectDepth_loop forIn_max)
    also have "fold max (map (\<lambda>child. specDepth child (d + 1)) (ownValues v)) d
                 = Max (set (map (\<lambda>child. specDepth child (d + 1)) (ownValues v)))"
    proof (rule fold_max_Max)
      show "map (\<lambda>child. specDepth child (d + 1)) (ownValues v) \<noteq> []"
        using True by simp
    next
      fix n assume "n \<in> set (map (\<lambda>child. specDepth child (d + 1)) (ownValues v))"
      then obtain x where "n = specDepth x (d + 1)" by auto
      then show "d \<le> n"
        using specDepth_ge [of "d + 1" x] by simp
    qed
    also have "\<dots> = specDepth v d"
      using True by (subst specDepth.simps) simp
    finally show ?thesis .
  next
    case False
    show ?thesis
    proof (cases "isContainer v")
      case True
      with False have "ownValues v = []" by simp
      then show ?thesis
        using True shadowFree_call [OF "1.prems"]
        by (subst specDepth.simps) (simp add: getObjectDepth_loop)
    next
      case False
      then show ?thesis
        by (subst specDepth.simps) (simp add: getObjectDepth_scalar)
    qed
  qed
qed

lemma getObjectDepth_returns_shadowFree: "getObjectDepth v d = Inr n \<Longrightarrow> shadowFree v"
proof (induction v d arbitrary: n rule: getObjectDepth.induct)
  case (1 obj currentDepth)
  show ?case
  proof (cases "isContainer obj")
    case False
    then show ?thesis by (rule scalar_shadowFree)
  next
    case True
    from hasOwnPropertyCall_cases [of obj] "1.prems"
    have call: "hasOwnPropertyCall obj = Inr True"
      by (auto simp: getObjectDepth_shadowed)
    have "shadowFree x" if x: "x \<in> set (ownValues obj)" for x
    proof -
      from "1.prems" True call x obtain k where "getObjectDepth x (currentDepth + 1) = Inr k"
        using forIn_returns [where xs = "ownValues obj" and m = currentDepth
            and f = "\<lambda>v. getObjectDepth v (currentDepth + 1)" and h = max and r = n and x = x]
        by (auto simp: getObjectDepth_loop)
      with "1.IH" [OF _ x call] True show ?thesis
        by (auto simp: isContainer_def)
    qed
    with call show ?thesis
      by (subst shadowFree.simps) (simp add: list_all_iff)
  qed
qed

lemma getObjectDepth_returns_iff: "(\<exists>n. getObjectDepth v d = Inr n) \<longleftrightarrow> shadowFree v"
  using getObjectDepth_returns_shadowFree getObjectDepth_shadowFree by blast

lemma getObjectDepth_Inr_specDepth: "getObjectDepth v d = Inr n \<Longrightarrow> n = specDepth v d"
  using getObjectDepth_returns_shadowFree [of v d n] getObjectDepth_shadowFree [of v d] by simp

subsection \<open>forInUpdate\<close>

lemma forInUpdate_all:
  "(\<And>x. x \<in> set xs \<Longrightarrow> f x = (g x, None)) \<Longrightarrow> forInUpdate xs f = (map g xs, None)"
  by (induction xs) simp_all

lemma forInUpdate_throws:
  "x \<in> set xs \<Longrightarrow> snd (f x) = Some e \<Longrightarrow> snd (forInUpdate xs f) \<noteq> None"
  by (induction xs) (auto split: prod.splits option.splits)

lemma forInUpdate_pointwise:
  "(\<And>x. x \<in> set xs \<Longrightarrow> R x (fst (f x))) \<Longrightarrow> (\<And>x. R x x)
   \<Longrightarrow> list_all2 R xs (fst (forInUpdate xs f))"
proof (induction xs)
  case Nil
  show ?case by simp
next
  case (Cons a xs)
  have a: "R a (fst (f a))" by (simp add: Cons.prems)
  have "list_all2 R xs (fst (forInUpdate xs f))" by (simp add: Cons)
  moreover have "list_all2 R xs xs" by (simp add: Cons.prems list_all2_refl)
  ultimately show ?case
    using a by (auto split: prod.splits option.splits)
qed

subsection \<open>sanitizeObject\<close>

lemma sanitizeObject_loop:
  "hasOwnPropertyCall obj = Inr True \<Longrightarrow>
   sanitizeObject obj =
     (case forInUpdate (ownValues obj) (\<lambda>value.
        if typeof value = ''string'' then (JStr (sanitizeString (stringValue value)), None)
        else if typeof value = ''object'' \<and> value \<noteq> JNull then sanitizeObject value
        else (value, None))
      of (values, r) \<Rightarrow> (withOwnValues obj values, r))"
  by (subst sanitizeObject.simps) simp

lemma sanitizeObject_shadowed:
  assumes "hasOwnPropertyCall obj = Inl e"
  shows "sanitizeObject obj = (obj, Some e)"
proof -
  from assms obtain ps where obj: "obj = JObj ps" and "js ''hasOwnProperty'' \<in> fst ` set ps"
    by (auto simp: hasOwnPropertyCall_def split: jsval.splits if_splits)
  then obtain p ps' where ps: "ps = p # ps'" by (cases ps) auto
  show ?thesis
    using assms unfolding obj ps
    by (subst sanitizeObject.simps) (simp add: zip_map_fst_snd)
qed

lemma sanitizeDeep_container: "isContainer v \<Longrightarrow> sanitizeDeep v = sanitizeValue v"
  by (cases v) (simp_all add: isContainer_def sanitizeDeep_def zip_map_map zip_same_conv_map map_prod_def case_prod_beta)

lemma sanitizeValue_scalar:
  "typeof v \<noteq> ''string'' \<Longrightarrow> \<not> (typeof v = ''object'' \<and> v \<noteq> JNull) \<Longrightarrow> sanitizeValue v = v"
  by (cases v) simp_all

lemma sanitizeValue_string:
  "typeof v = ''string'' \<Longrightarrow> sanitizeValue v = JStr (sanitizeString (stringValue v))"
  by (cases v) simp_all

lemma sanitizeObject_shadowFree: "shadowFree obj \<Longrightarrow> sanitizeObject obj = (sanitizeDeep obj, None)"
proof (induction obj rule: sanitizeObject.induct)
  case (1 obj)
  note call = shadowFree_call [OF "1.prems"]
  have "(if typeof x = ''string'' then (JStr (sanitizeString (stringValue x)), None)
         else if typeof x = ''object'' \<and> x \<noteq> JNull then sanitizeObject x
         else (x, None)) = (sanitizeValue x, None)"
    if x: "x \<in> set (ownValues obj)" for x
  proof -
    have "sanitizeObject x = (sanitizeValue x, None)"
      if "typeof x \<noteq> ''string''" "typeof x = ''object'' \<and> x \<noteq> JNull"
      using "1.IH" [OF x call _ that] shadowFree_child [OF "1.prems" x] that
      by (simp add: sanitizeDeep_container isContainer_def)
    then show ?thesis
      by (simp add: sanitizeValue_string sanitizeValue_scalar)
  qed
  then show ?case
    by (simp add: sanitizeObject_loop [OF call] forInUpdate_all sanitizeDeep_def)
qed

lemma sanitizeObject_throws: "\<not> shadowFree obj \<Longrightarrow> snd (sanitizeObject obj) = Some TypeError"
proof (induction obj rule: sanitizeObject.induct)
  case (1 obj)
  show ?case
  proof (cases "hasOwnPropertyCall obj")
    case (Inl e)
    then show ?thesis
      by (simp add: sanitizeObject_shadowed error_is_TypeError [of e])
  next
    case (Inr b)
    with hasOwnPropertyCall_cases [of obj] have call: "hasOwnPropertyCall obj = Inr True"
      by simp
    with "1.prems" obtain x where x: "x \<in> set (ownValues obj)" and nx: "\<not> shadowFree x"
      by (subst (asm) shadowFree.simps) (auto simp: list_all_iff)
    from nx scalar_shadowFree have cx: "isContainer x" by blast
    then have "snd (sanitizeObject x) = Some TypeError"
      using "1.IH" [OF x call _ _ _ nx] by (auto simp: isContainer_def)
    with cx have "snd (if typeof x = ''string'' then (JStr (sanitizeString (stringValue x)), None)
         else if typeof x = ''object'' \<and> x \<noteq> JNull then sanitizeObject x
         else (x, None)) = Some TypeError"
      by (auto simp: isContainer_def)
    from forInUpdate_throws [where f = "\<lambda>value.
        if typeof value = ''string'' then (JStr (sanitizeString (stringValue value)), None)
        else if typeof value = ''object'' \<and> value \<noteq> JNull then sanitizeObject value
        else (value, None)", OF x this]
    obtain e where "snd (forInUpdate (ownValues obj) (\<lambda>value.
        if typeof value = ''string'' then (JStr (sanitizeString (stringValue value)), None)
        else if typeof value = ''object'' \<and> value \<noteq> JNull then sanitizeObject value
        else (value, None))) = Some e"
      by blast
    then show ?thesis
      by (auto simp: sanitizeObject_loop [OF call] error_is_TypeError [of e] split: prod.splits)
  qed
qed

lemma sanitizeObject_returns_iff: "snd (sanitizeObject obj) = None \<longleftrightarrow> shadowFree obj"
  using sanitizeObject_throws [of obj] sanitizeObject_shadowFree [of obj]
  by (cases "shadowFree obj") auto

subsection \<open>shape\<close>

lemma shape_withOwnValues:
  "list_all2 (\<lambda>x y. shape y = shape x) (ownValues v) ys \<Longrightarrow> shape (withOwnValues v ys) = shape v"
proof (cases v)
  case (JArr xs)
  assume "list_all2 (\<lambda>x y. shape y = shape x) (ownValues v) ys"
  with JArr have "map shape ys = map shape xs"
    by (simp add: list_all2_conv_all_nth list_eq_iff_nth_eq)
  with JArr show ?thesis by simp
next
  case (JObj ps)
  assume "list_all2 (\<lambda>x y. shape y = shape x) (ownValues v) ys"
  with JObj have "list_all2 (\<lambda>x y. shape y = shape x) (map snd ps) ys" by simp
  then have "map (map_prod id shape) (zip (map fst ps) ys) = map (map_prod id shape) ps"
    by (induction ps arbitrary: ys) (auto simp: list_all2_Cons1)
  with JObj show ?thesis by simp
qed simp_all

lemma sanitizeObject_shape: "shape (fst (sanitizeObject obj)) = shape obj"
proof (induction obj rule: sanitizeObject.induct)
  case (1 obj)
  show ?case
  proof (cases "hasOwnPropertyCall obj")
    case (Inl e)
    then show ?thesis by (simp add: sanitizeObject_shadowed)
  next
    case (Inr b)
    with hasOwnPropertyCall_cases [of obj] have call: "hasOwnPropertyCall obj = Inr True"
      by simp
    let ?body = "\<lambda>value.
        if typeof value = ''string'' then (JStr (sanitizeString (stringValue value)), None)
        else if typeof value = ''object'' \<and> value \<noteq> JNull then sanitizeObject value
        else (value, None)"
    have "shape (fst (?body x)) = shape x" if x: "x \<in> set (ownValues obj)" for x
      using "1.IH" [OF x call] by (cases x) auto
    then have "list_all2 (\<lambda>x y. shape y = shape x) (ownValues obj)
                 (fst (forInUpdate (ownValues obj) ?body))"
      by (intro forInUpdate_pointwise) auto
    moreover obtain vs r where "forInUpdate (ownValues obj) ?body = (vs, r)"
      by (cases "forInUpdate (ownValues obj) ?body")
    ultimately show ?thesis
      by (simp add: sanitizeObject_loop [OF call] shape_withOwnValues)
  qed
qed

text \<open>What two bodies of the same skeleton share.\<close>

lemma shape_typeof: "shape a = shape b \<Longrightarrow> typeof a = typeof b"
  by (cases a; cases b) simp_all

lemma shape_keys:
  "shape (JObj ps) = shape (JObj qs) \<Longrightarrow> map fst ps = map fst qs"
proof -
  assume "shape (JObj ps) = shape (JObj qs)"
  then have "map (map_prod id shape) ps = map (map_prod id shape) qs" by simp
  then have "map fst (map (map_prod id shape) ps) = map fst (map (map_prod id shape) qs)"
    by simp
  then show ?thesis by (simp add: comp_def)
qed

lemma shape_length:
  "shape (JArr xs) = shape (JArr ys) \<Longrightarrow> length xs = length ys"
  by (auto dest: map_eq_imp_length_eq)

lemma shape_children:
  "shape a = shape b \<Longrightarrow> list_all2 (\<lambda>x y. shape x = shape y) (ownValues a) (ownValues b)"
proof (cases a; cases b)
  fix xs ys assume "a = JArr xs" "b = JArr ys" "shape a = shape b"
  then show ?thesis
    by (simp add: list_all2_conv_all_nth list_eq_iff_nth_eq)
next
  fix ps qs assume "a = JObj ps" "b = JObj qs" "shape a = shape b"
  then have "map (map_prod id shape) ps = map (map_prod id shape) qs" by simp
  then have "map snd (map (map_prod id shape) ps) = map snd (map (map_prod id shape) qs)"
    by simp
  then have "map shape (map snd ps) = map shape (map snd qs)"
    by (simp add: comp_def)
  with \<open>a = JObj ps\<close> \<open>b = JObj qs\<close> show ?thesis
    by (simp add: list_all2_conv_all_nth list_eq_iff_nth_eq)
qed simp_all

lemma shape_leaf:
  "shape a = shape b \<Longrightarrow> typeof a \<noteq> ''string'' \<Longrightarrow> \<not> isContainer a \<Longrightarrow> b = a"
  by (cases a; cases b) (simp_all add: isContainer_def)

section \<open>The ways a call of the middleware ends\<close>

lemma container_truthy: "isContainer v \<longleftrightarrow> truthy v \<and> typeof v = ''object''"
  by (cases v) (simp_all add: isContainer_def)

text \<open>How the middleware ends, by the three checks.\<close>

lemma securityMiddleware_too_large:
  "jsGreater (contentLength req) MAX_SIZE \<Longrightarrow>
   securityMiddleware req res =
     \<lparr>outcome = Responded 413 tooLargePayload, resHeaders = res, reqBody = body req\<rparr>"
  by (simp add: securityMiddleware_def)

lemma securityMiddleware_unsupported:
  "\<not> jsGreater (contentLength req) MAX_SIZE \<Longrightarrow> contentType req \<noteq> [] \<Longrightarrow>
   \<not> list_ex (includes_str (contentType req)) allowedTypes \<Longrightarrow>
   securityMiddleware req res =
     \<lparr>outcome = Responded 415 unsupportedTypePayload, resHeaders = res, reqBody = body req\<rparr>"
  by (simp add: securityMiddleware_def)

lemma securityMiddleware_no_container:
  "\<not> jsGreater (contentLength req) MAX_SIZE \<Longrightarrow>
   contentType req = [] \<or> list_ex (includes_str (contentType req)) allowedTypes \<Longrightarrow>
   \<not> isContainer (body req) \<Longrightarrow>
   securityMiddleware req res =
     \<lparr>outcome = Next,
      resHeaders = res(js ''X-RateLimit-Limit'' \<mapsto> js ''100'',
                       js ''X-Content-Type-Options'' \<mapsto> js ''nosniff''),
      reqBody = body req\<rparr>"
  by (auto simp: securityMiddleware_def container_truthy)

lemma securityMiddleware_shadowed:
  "\<not> jsGreater (contentLength req) MAX_SIZE \<Longrightarrow>
   contentType req = [] \<or> list_ex (includes_str (contentType req)) allowedTypes \<Longrightarrow>
   isContainer (body req) \<Longrightarrow> \<not> shadowFree (body req) \<Longrightarrow>
   securityMiddleware req res =
     \<lparr>outcome = Thrown TypeError, resHeaders = res, reqBody = body req\<rparr>"
proof -
  assume a: "\<not> jsGreater (contentLength req) MAX_SIZE"
    "contentType req = [] \<or> list_ex (includes_str (contentType req)) allowedTypes"
    "isContainer (body req)" "\<not> shadowFree (body req)"
  then obtain e where "getObjectDepth (body req) 0 = Inl e"
    using getObjectDepth_returns_shadowFree [of "body req" 0] by (cases "getObjectDepth (body req) 0") auto
  with a show ?thesis
    by (auto simp: securityMiddleware_def container_truthy error_is_TypeError [of e])
qed

lemma securityMiddleware_too_deep:
  "\<not> jsGreater (contentLength req) MAX_SIZE \<Longrightarrow>
   contentType req = [] \<or> list_ex (includes_str (contentType req)) allowedTypes \<Longrightarrow>
   isContainer (body req) \<Longrightarrow> shadowFree (body req) \<Longrightarrow> specDepth (body req) 0 > 10 \<Longrightarrow>
   securityMiddleware req res =
     \<lparr>outcome = Responded 400 tooDeepPayload, resHeaders = res, reqBody = body req\<rparr>"
  by (auto simp: securityMiddleware_def container_truthy getObjectDepth_shadowFree MAX_DEPTH_def)

lemma securityMiddleware_sanitized:
  "\<not> jsGreater (contentLength req) MAX_SIZE \<Longrightarrow>
   contentType req = [] \<or> list_ex (includes_str (contentType req)) allowedTypes \<Longrightarrow>
   isContainer (body req) \<Longrightarrow> shadowFree (body req) \<Longrightarrow> specDepth (body req) 0 \<le> 10 \<Longrightarrow>
   securityMiddleware req res =
     \<lparr>outcome = Next,
      resHeaders = res(js ''X-RateLimit-Limit'' \<mapsto> js ''100'',
                       js ''X-Content-Type-Options'' \<mapsto> js ''nosniff''),
      reqBody = sanitizeDeep (body req)\<rparr>"
  by (auto simp: securityMiddleware_def container_truthy getObjectDepth_shadowFree
      sanitizeObject_shadowFree MAX_DEPTH_def)

text \<open>Every call ends in one of the five ways above.\<close>

lemma securityMiddleware_cases:
  obtains
    (too_large) "jsGreater (contentLength req) MAX_SIZE"
  | (unsupported) "\<not> jsGreater (contentLength req) MAX_SIZE" "contentType req \<noteq> []"
      "\<not> list_ex (includes_str (contentType req)) allowedTypes"
  | (no_container) "\<not> jsGreater (contentLength req) MAX_SIZE"
      "contentType req = [] \<or> list_ex (includes_str (contentType req)) allowedTypes"
      "\<not> isContainer (body req)"
  | (shadowed) "\<not> jsGreater (contentLength req) MAX_SIZE"
      "contentType req = [] \<or> list_ex (includes_str (contentType req)) allowedTypes"
      "isContainer (body req)" "\<not> shadowFree (body req)"
  | (too_deep) "\<not> jsGreater (contentLength req) MAX_SIZE"
      "contentType req = [] \<or> list_ex (includes_str (contentType req)) allowedTypes"
      "isContainer (body req)" "shadowFree (body req)" "specDepth (body req) 0 > 10"
  | (sanitized) "\<not> jsGreater (contentLength req) MAX_SIZE"
      "contentType req = [] \<or> list_ex (includes_str (contentType req)) allowedTypes"
      "isContainer (body req)" "shadowFree (body req)" "specDepth (body req) 0 \<le> 10"
  by (cases "specDepth (body req) 0 \<le> 10") auto

lemma allowed_json: "list_ex (includes_str (js ''application/json'')) allowedTypes"
  by (simp add: allowedTypes_def js_def)

lemma plain_not_allowed: "\<not> list_ex (includes_str (js ''text/plain'')) allowedTypes"
  by (simp add: allowedTypes_def string_eval)

lemma contentType_cases:
  "contentType req =
     (case headers req (js ''content-type'') of None \<Rightarrow> [] | Some s \<Rightarrow> s)"
  by (simp add: contentType_def orDefault_def split: option.splits)

subsection \<open>Object chains\<close>

lemma key_a_not_hasOwnProperty: "js ''hasOwnProperty'' \<noteq> js ''a''"
  by (simp add: js_def)

lemma shadowFree_nested: "shadowFree (nested n v) \<longleftrightarrow> shadowFree v"
  by (induction n) (simp_all add: key_a_not_hasOwnProperty)

lemma specDepth_nested: "specDepth (nested n v) d = specDepth v (d + n)"
  by (induction n arbitrary: d) simp_all

lemma isContainer_nested: "isContainer (nested (Suc n) v)"
  by simp

lemma getObjectDepth_nested: "shadowFree v \<Longrightarrow> getObjectDepth (nested n v) d = Inr (specDepth v (d + n))"
  by (simp add: getObjectDepth_shadowFree shadowFree_nested specDepth_nested)

lemma sanitizeValue_nested: "sanitizeValue (nested n v) = nested n (sanitizeValue v)"
  by (induction n) simp_all

lemma sanitizeDeep_nested: "sanitizeDeep (nested (Suc n) v) = nested (Suc n) (sanitizeValue v)"
  by (simp add: sanitizeDeep_def sanitizeValue_nested)

section \<open>String sanitization\<close>



lemma sanitizeString_length: "length (sanitizeString s) \<le> 10000"
  by (simp add: sanitizeString_def Let_def)


lemma replaceAll_no_match:
  "(\<And>c cs. c \<in> set s \<Longrightarrow> m (c # cs) = None) \<Longrightarrow> replaceAll m s = s"
  by (induction s) simp_all

lemma matchScript_first: "c \<noteq> 0x3C \<Longrightarrow> matchScript (c # cs) = None"
  by (auto simp: matchScript_def js_def cu_def canonicalize_def)

lemma matchJavascript_first: "canonicalize c \<noteq> 0x4A \<Longrightarrow> matchJavascript (c # cs) = None"
  by (auto simp: matchJavascript_def js_def cu_def canonicalize_def)

lemma matchHandler_first: "canonicalize c \<noteq> 0x4F \<Longrightarrow> matchHandler (c # cs) = None"
  by (auto simp: matchHandler_def js_def cu_def canonicalize_def)

lemma replaceAll_javascript_prefix:
  "replaceAll matchJavascript (js ''javascript:'' @ t) = replaceAll matchJavascript t"
  by (simp add: matchJavascript_def js_def cu_def canonicalize_def)

subsection \<open>A match is kept when text is appended\<close>














subsection \<open>Strings that a replacement leaves alone\<close>







section \<open>Requests within the limits\<close>

text \<open>
  A request within all three limits passes, with both headers set, when no object of its
  body has an own property named \<open>hasOwnProperty\<close>.
\<close>

lemma passes_when_shadowFree:
  assumes "contentLength req = Some n" and "n \<le> 1048576"
    and "list_ex (includes_str (contentType req)) allowedTypes"
    and "isContainer (body req) \<longrightarrow> specDepth (body req) 0 \<le> 10"
    and "shadowFree (body req)"
  shows "outcome (securityMiddleware req res) = Next"
    and "resHeaders (securityMiddleware req res) (js ''X-Content-Type-Options'') = Some (js ''nosniff'')"
    and "resHeaders (securityMiddleware req res) (js ''X-RateLimit-Limit'') = Some (js ''100'')"
proof -
  from assms(1,2) have size: "\<not> jsGreater (contentLength req) MAX_SIZE"
    by (simp add: jsGreater_def MAX_SIZE_def)
  have names: "js ''X-RateLimit-Limit'' \<noteq> js ''X-Content-Type-Options''"
    by (simp add: js_def cu_def)
  show "outcome (securityMiddleware req res) = Next"
    and "resHeaders (securityMiddleware req res) (js ''X-Content-Type-Options'') = Some (js ''nosniff'')"
    and "resHeaders (securityMiddleware req res) (js ''X-RateLimit-Limit'') = Some (js ''100'')"
    using assms(3-5) size names
    by (cases "isContainer (body req)";
        simp add: securityMiddleware_no_container securityMiddleware_sanitized)+
qed

text \<open>
  C1. Every request whose content-length parses to at most 1,048,576, whose
  content-type contains an allowed type and whose body, when it is a mapping or a
  sequence, has nesting depth at most 10 is passed downstream with
  \<open>X-Content-Type-Options: nosniff\<close> and \<open>X-RateLimit-Limit: 100\<close>. The code does not
  do so for the JSON body \<open>{"hasOwnProperty": 1}\<close> of depth 1, sent with content-length
  21 and content-type \<open>application/json\<close>: in \<open>getObjectDepth\<close> the call
  \<open>obj.hasOwnProperty(key)\<close> finds the number 1 in place of the method and throws a
  TypeError, so that \<open>next()\<close> is not called and no header is set.
\<close>

theorem hasOwnProperty_body_throws:
  "contentLength \<lparr>headers = [js ''content-length'' \<mapsto> js ''21'',
                               js ''content-type'' \<mapsto> js ''application/json''],
                    body = JObj [(js ''hasOwnProperty'', JNum 1)]\<rparr> = Some 21
   \<and> list_ex (includes_str (contentType
         \<lparr>headers = [js ''content-length'' \<mapsto> js ''21'',
                      js ''content-type'' \<mapsto> js ''application/json''],
           body = JObj [(js ''hasOwnProperty'', JNum 1)]\<rparr>)) allowedTypes
   \<and> specDepth (JObj [(js ''hasOwnProperty'', JNum 1)]) 0 = 1
   \<and> securityMiddleware
         \<lparr>headers = [js ''content-length'' \<mapsto> js ''21'',
                      js ''content-type'' \<mapsto> js ''application/json''],
           body = JObj [(js ''hasOwnProperty'', JNum 1)]\<rparr> Map.empty
       = \<lparr>outcome = Thrown TypeError, resHeaders = Map.empty,
          reqBody = JObj [(js ''hasOwnProperty'', JNum 1)]\<rparr>"
proof -
  let ?req = "\<lparr>headers = [js ''content-length'' \<mapsto> js ''21'',
                            js ''content-type'' \<mapsto> js ''application/json''],
                 body = JObj [(js ''hasOwnProperty'', JNum 1)]\<rparr>"
  have len: "contentLength ?req = Some 21"
    by (simp add: contentLength_def orDefault_def parseInt_eval string_eval)
  have "contentType ?req = js ''application/json''"
    by (simp add: contentType_def orDefault_def js_def)
  then have type: "list_ex (includes_str (contentType ?req)) allowedTypes"
    by (simp add: allowed_json)
  have depth: "specDepth (JObj [(js ''hasOwnProperty'', JNum 1)]) 0 = 1"
    by simp
  from len have "\<not> jsGreater (contentLength ?req) MAX_SIZE"
    by (simp add: jsGreater_def MAX_SIZE_def)
  with type have "securityMiddleware ?req Map.empty
       = \<lparr>outcome = Thrown TypeError, resHeaders = Map.empty, reqBody = body ?req\<rparr>"
    by (intro securityMiddleware_shadowed) simp_all
  with len type depth show ?thesis by simp
qed

section \<open>Sanitization and the shape of the body\<close>

text \<open>
  C2. Sanitization mutates only string leaves. Whatever the body, and whether
  \<open>sanitizeObject\<close> returns or throws on the way, the body it leaves behind has the
  skeleton of the body it was given: the same nesting, the same keys in every mapping,
  the same length of every sequence and the same leaves other than strings. The same
  holds of \<open>req.body\<close> after the middleware, however the call ends.
\<close>

theorem sanitization_keeps_shape:
  "shape (fst (sanitizeObject b)) = shape b
   \<and> shape (reqBody (securityMiddleware req res)) = shape (body req)"
proof
  show "shape (fst (sanitizeObject b)) = shape b"
    by (rule sanitizeObject_shape)
  show "shape (reqBody (securityMiddleware req res)) = shape (body req)"
    using sanitizeObject_shape [of "body req"]
    by (auto simp: securityMiddleware_def Let_def split: sum.splits prod.splits option.splits)
qed

theorem sanitization_keeps_shape_witness:
  "shape (fst (sanitizeObject
      (JObj [(js ''name'', JStr (js ''javascript:x'')),
             (js ''tags'', JArr [JStr (js ''onload=''), JNum 2, JNull])])))
   = JObj [(js ''name'', JStr []), (js ''tags'', JArr [JStr [], JNum 2, JNull])]"
  using sanitization_keeps_shape
    [of "JObj [(js ''name'', JStr (js ''javascript:x'')),
             (js ''tags'', JArr [JStr (js ''onload=''), JNum 2, JNull])]"]
  by simp

section \<open>The depth check\<close>

text \<open>
  A body of computed depth 11 is not rejected with 400 when an earlier check rejects
  the request: with the content-type \<open>text/plain\<close> the answer is 415.
\<close>

theorem depth_check_counterexample:
  "isContainer (nested 11 (JNum 1))
   \<and> getObjectDepth (nested 11 (JNum 1)) 0 = Inr 11
   \<and> outcome (securityMiddleware
        \<lparr>headers = [js ''content-type'' \<mapsto> js ''text/plain''], body = nested 11 (JNum 1)\<rparr>
        Map.empty)
      = Responded 415 unsupportedTypePayload"
proof -
  let ?req = "\<lparr>headers = [js ''content-type'' \<mapsto> js ''text/plain''], body = nested 11 (JNum 1)\<rparr>"
  have "isContainer (nested 11 (JNum 1))"
    by (simp add: eval_nat_numeral)
  moreover have "getObjectDepth (nested 11 (JNum 1)) 0 = Inr 11"
    by (simp add: getObjectDepth_nested)
  moreover have "contentLength ?req = Some 0"
    using header_names_differ by (simp add: contentLength_cases)
  then have "\<not> jsGreater (contentLength ?req) MAX_SIZE"
    by (simp add: jsGreater_def MAX_SIZE_def)
  moreover have "contentType ?req = js ''text/plain''"
    by (simp add: contentType_def orDefault_def js_def)
  ultimately show ?thesis
    using plain_not_allowed by (simp add: securityMiddleware_unsupported js_def)
qed

text \<open>
  C3, amended. Take a request that neither the size check nor the content-type check
  rejects, whose body is a mapping or a sequence, and for which \<open>getObjectDepth\<close>
  returns the depth \<open>d\<close>. Then \<open>d\<close> is the depth of the specification (a scalar has
  its ancestor count, a container the greatest depth of its children, an empty
  container its own ancestor count). When \<open>d\<close> exceeds 10 the middleware answers 400
  with \<open>{success: false, error: "Request object too deeply nested", maxDepth: 10}\<close>,
  sets no header and leaves the body as it was; when \<open>d\<close> is at most 10 the request
  passes. So a chain of 11 objects around a scalar is rejected, and a chain of 10
  passes.
\<close>

theorem depth_check_400:
  assumes "\<not> jsGreater (contentLength req) MAX_SIZE"
    and "contentType req = [] \<or> list_ex (includes_str (contentType req)) allowedTypes"
    and "isContainer (body req)"
    and "getObjectDepth (body req) 0 = Inr d"
  shows "d = specDepth (body req) 0
    \<and> (d > 10 \<longrightarrow> securityMiddleware req res =
          \<lparr>outcome = Responded 400 tooDeepPayload, resHeaders = res, reqBody = body req\<rparr>)
    \<and> (d \<le> 10 \<longrightarrow> outcome (securityMiddleware req res) = Next)"
proof -
  from assms(4) have free: "shadowFree (body req)"
    by (rule getObjectDepth_returns_shadowFree)
  from assms(4) have d: "d = specDepth (body req) 0"
    by (rule getObjectDepth_Inr_specDepth)
  from assms(1-3) free d show ?thesis
    by (simp add: securityMiddleware_too_deep securityMiddleware_sanitized)
qed

theorem depth_check_400_witness:
  "securityMiddleware \<lparr>headers = Map.empty, body = nested 11 (JNum 1)\<rparr> Map.empty
     = \<lparr>outcome = Responded 400 tooDeepPayload, resHeaders = Map.empty,
        reqBody = nested 11 (JNum 1)\<rparr>
   \<and> outcome (securityMiddleware \<lparr>headers = Map.empty, body = nested 10 (JNum 1)\<rparr> Map.empty)
     = Next"
proof -
  have size: "\<not> jsGreater (contentLength \<lparr>headers = Map.empty, body = b\<rparr>) MAX_SIZE" for b
    by (simp add: contentLength_cases jsGreater_def MAX_SIZE_def)
  have type: "contentType \<lparr>headers = Map.empty, body = b\<rparr> = []" for b
    by (simp add: contentType_def orDefault_def)
  have c11: "isContainer (body \<lparr>headers = Map.empty, body = nested 11 (JNum 1)\<rparr>)"
    by (simp add: eval_nat_numeral)
  have c10: "isContainer (body \<lparr>headers = Map.empty, body = nested 10 (JNum 1)\<rparr>)"
    by (simp add: eval_nat_numeral)
  have d11: "getObjectDepth (body \<lparr>headers = Map.empty, body = nested 11 (JNum 1)\<rparr>) 0 = Inr 11"
    by (simp add: getObjectDepth_nested)
  have d10: "getObjectDepth (body \<lparr>headers = Map.empty, body = nested 10 (JNum 1)\<rparr>) 0 = Inr 10"
    by (simp add: getObjectDepth_nested)
  from depth_check_400 [OF size _ c11 d11, of Map.empty] type
  have "securityMiddleware \<lparr>headers = Map.empty, body = nested 11 (JNum 1)\<rparr> Map.empty
     = \<lparr>outcome = Responded 400 tooDeepPayload, resHeaders = Map.empty,
        reqBody = nested 11 (JNum 1)\<rparr>"
    by simp
  moreover from depth_check_400 [OF size _ c10 d10, of Map.empty] type
  have "outcome (securityMiddleware \<lparr>headers = Map.empty, body = nested 10 (JNum 1)\<rparr> Map.empty)
     = Next"
    by simp
  ultimately show ?thesis by simp
qed

section \<open>The size check\<close>

text \<open>
  C4. The middleware answers 413 with the payload
  \<open>{success: false, error: "Request entity too large", maxSize: "1048576 bytes"}\<close>
  exactly when the content-length header parses to an integer above 1,048,576, and
  413 never comes with another payload. When the header is missing or does not parse,
  the call ends as it does for the same request with the header \<open>0\<close>, and not by 413.
\<close>

theorem size_check_413:
  "(outcome (securityMiddleware req res) = Responded 413 tooLargePayload
      \<longleftrightarrow> (\<exists>s n. headers req (js ''content-length'') = Some s \<and> parseInt s = Some n
                  \<and> n > 1048576))
   \<and> (\<forall>payload. outcome (securityMiddleware req res) = Responded 413 payload
         \<longrightarrow> payload = tooLargePayload)
   \<and> (headers req (js ''content-length'') = None
        \<or> (\<exists>s. headers req (js ''content-length'') = Some s \<and> parseInt s = None)
      \<longrightarrow> contentLength (req\<lparr>headers := (headers req)(js ''content-length'' \<mapsto> js ''0'')\<rparr>)
            = Some 0
          \<and> securityMiddleware req res =
              securityMiddleware
                (req\<lparr>headers := (headers req)(js ''content-length'' \<mapsto> js ''0'')\<rparr>) res
          \<and> (\<forall>payload. outcome (securityMiddleware req res) \<noteq> Responded 413 payload))"
proof (intro conjI allI impI)
  have "jsGreater (contentLength req) MAX_SIZE
      \<longleftrightarrow> (\<exists>s n. headers req (js ''content-length'') = Some s \<and> parseInt s = Some n
                  \<and> n > 1048576)"
    by (auto simp: contentLength_cases jsGreater_def MAX_SIZE_def parseInt_Nil
        split: option.splits if_splits)
  moreover have "outcome (securityMiddleware req res) = Responded 413 tooLargePayload
      \<longleftrightarrow> jsGreater (contentLength req) MAX_SIZE"
    by (auto simp: securityMiddleware_def Let_def split: option.splits sum.splits prod.splits)
  ultimately show "outcome (securityMiddleware req res) = Responded 413 tooLargePayload
      \<longleftrightarrow> (\<exists>s n. headers req (js ''content-length'') = Some s \<and> parseInt s = Some n
                  \<and> n > 1048576)"
    by simp
next
  fix payload
  assume "outcome (securityMiddleware req res) = Responded 413 payload"
  then show "payload = tooLargePayload"
    by (auto simp: securityMiddleware_def Let_def
        split: if_splits option.splits sum.splits prod.splits)
next
  let ?req' = "req\<lparr>headers := (headers req)(js ''content-length'' \<mapsto> js ''0'')\<rparr>"
  assume h: "headers req (js ''content-length'') = None
        \<or> (\<exists>s. headers req (js ''content-length'') = Some s \<and> parseInt s = None)"
  show z: "contentLength ?req' = Some 0"
    by (simp add: contentLength_cases parseInt_zero)
  from h have nz: "\<not> jsGreater (contentLength req) MAX_SIZE"
    by (auto simp: contentLength_cases jsGreater_def MAX_SIZE_def parseInt_Nil
        split: if_splits)
  from z have "\<not> jsGreater (contentLength ?req') MAX_SIZE"
    by (simp add: jsGreater_def MAX_SIZE_def)
  with nz show "securityMiddleware req res = securityMiddleware ?req' res"
    by (intro securityMiddleware_reads [symmetric]) (simp_all add: contentType_update)
  fix payload
  from nz show "outcome (securityMiddleware req res) \<noteq> Responded 413 payload"
    by (auto simp: securityMiddleware_def Let_def
        split: if_splits option.splits sum.splits prod.splits)
qed

theorem size_check_413_witness:
  "outcome (securityMiddleware
      \<lparr>headers = [js ''content-length'' \<mapsto> js ''1048577''], body = JNull\<rparr> Map.empty)
     = Responded 413 tooLargePayload
   \<and> outcome (securityMiddleware
      \<lparr>headers = [js ''content-length'' \<mapsto> js ''abc''], body = JNull\<rparr> Map.empty)
     = Next"
proof -
  have a: "parseInt (js ''1048577'') = Some 1048577"
    by (simp add: parseInt_eval string_eval)
  have b: "parseInt (js ''abc'') = None"
    by (simp add: parseInt_eval string_eval)
  have c: "outcome (securityMiddleware
             \<lparr>headers = [js ''content-length'' \<mapsto> js ''abc'',
                          js ''content-length'' \<mapsto> js ''0''], body = JNull\<rparr> Map.empty) = Next"
    by (simp add: middleware_eval parseInt_eval string_eval)
  from a size_check_413
    [of "\<lparr>headers = [js ''content-length'' \<mapsto> js ''1048577''], body = JNull\<rparr>" Map.empty]
  have "outcome (securityMiddleware
      \<lparr>headers = [js ''content-length'' \<mapsto> js ''1048577''], body = JNull\<rparr> Map.empty)
     = Responded 413 tooLargePayload"
    by simp
  moreover
  from b c size_check_413
    [of "\<lparr>headers = [js ''content-length'' \<mapsto> js ''abc''], body = JNull\<rparr>" Map.empty]
  have "outcome (securityMiddleware
      \<lparr>headers = [js ''content-length'' \<mapsto> js ''abc''], body = JNull\<rparr> Map.empty) = Next"
    by simp
  ultimately show ?thesis by simp
qed

section \<open>The content-type check\<close>

text \<open>
  A request with the content-type \<open>text/plain\<close> is not answered with 415 when its
  content-length is 1,048,577: the size check comes first and answers 413.
\<close>

theorem type_check_counterexample:
  "contentType \<lparr>headers = [js ''content-length'' \<mapsto> js ''1048577'',
                             js ''content-type'' \<mapsto> js ''text/plain''], body = JNull\<rparr>
     = js ''text/plain''
   \<and> js ''text/plain'' \<noteq> []
   \<and> \<not> list_ex (includes_str (js ''text/plain'')) allowedTypes
   \<and> outcome (securityMiddleware
        \<lparr>headers = [js ''content-length'' \<mapsto> js ''1048577'',
                     js ''content-type'' \<mapsto> js ''text/plain''], body = JNull\<rparr> Map.empty)
      = Responded 413 tooLargePayload"
proof -
  let ?req = "\<lparr>headers = [js ''content-length'' \<mapsto> js ''1048577'',
                            js ''content-type'' \<mapsto> js ''text/plain''], body = JNull\<rparr>"
  have "contentLength ?req = Some 1048577"
    by (simp add: contentLength_def orDefault_def parseInt_eval string_eval)
  then have "jsGreater (contentLength ?req) MAX_SIZE"
    by (simp add: jsGreater_def MAX_SIZE_def)
  then have "outcome (securityMiddleware ?req Map.empty) = Responded 413 tooLargePayload"
    by (simp add: securityMiddleware_too_large)
  moreover have "contentType ?req = js ''text/plain''"
    by (simp add: contentType_def orDefault_def js_def)
  moreover have "js ''text/plain'' \<noteq> []"
    by (simp add: js_def)
  ultimately show ?thesis
    using plain_not_allowed by simp
qed

text \<open>
  C5, amended. Among the requests that the size check does not reject, the middleware
  answers 415 with \<open>{success: false, error: "Unsupported media type", allowedTypes: [...]}\<close>
  exactly when the content-type header is present, is not empty and contains none of
  \<open>application/json\<close>, \<open>application/x-www-form-urlencoded\<close> and
  \<open>multipart/form-data\<close>. For every request, an answer 415 carries that payload and
  comes only under that condition; a missing or empty content-type header never leads
  to 415.
\<close>

theorem type_check_415:
  "(\<not> jsGreater (contentLength req) MAX_SIZE \<longrightarrow>
      (outcome (securityMiddleware req res) = Responded 415 unsupportedTypePayload
         \<longleftrightarrow> (\<exists>s. headers req (js ''content-type'') = Some s \<and> s \<noteq> []
                  \<and> \<not> list_ex (includes_str s) allowedTypes)))
   \<and> (\<forall>payload. outcome (securityMiddleware req res) = Responded 415 payload \<longrightarrow>
         payload = unsupportedTypePayload
         \<and> (\<exists>s. headers req (js ''content-type'') = Some s \<and> s \<noteq> []
                  \<and> \<not> list_ex (includes_str s) allowedTypes))
   \<and> (headers req (js ''content-type'') = None \<or> headers req (js ''content-type'') = Some [] \<longrightarrow>
         (\<forall>payload. outcome (securityMiddleware req res) \<noteq> Responded 415 payload))"
proof -
  have cond: "(\<exists>s. headers req (js ''content-type'') = Some s \<and> s \<noteq> []
                  \<and> \<not> list_ex (includes_str s) allowedTypes)
     \<longleftrightarrow> contentType req \<noteq> [] \<and> \<not> list_ex (includes_str (contentType req)) allowedTypes"
    by (auto simp: contentType_cases split: option.splits)
  have only: "contentType req \<noteq> [] \<and> \<not> list_ex (includes_str (contentType req)) allowedTypes
      \<and> payload = unsupportedTypePayload"
    if "outcome (securityMiddleware req res) = Responded 415 payload" for payload
    using that
    by - (rule securityMiddleware_cases [of req],
       simp_all add: securityMiddleware_too_large securityMiddleware_unsupported
          securityMiddleware_no_container securityMiddleware_shadowed
          securityMiddleware_too_deep securityMiddleware_sanitized)
  have "outcome (securityMiddleware req res) = Responded 415 unsupportedTypePayload
         \<longleftrightarrow> contentType req \<noteq> [] \<and> \<not> list_ex (includes_str (contentType req)) allowedTypes"
    if "\<not> jsGreater (contentLength req) MAX_SIZE"
    using that only [of unsupportedTypePayload] by (auto simp: securityMiddleware_unsupported)
  moreover have "contentType req = []"
    if "headers req (js ''content-type'') = None \<or> headers req (js ''content-type'') = Some []"
    using that by (auto simp: contentType_cases)
  ultimately show ?thesis
    unfolding cond using only by blast
qed

theorem type_check_415_witness:
  "outcome (securityMiddleware
      \<lparr>headers = [js ''content-type'' \<mapsto> js ''text/plain''], body = JNull\<rparr> Map.empty)
     = Responded 415 unsupportedTypePayload
   \<and> outcome (securityMiddleware
      \<lparr>headers = [js ''content-type'' \<mapsto> []], body = JNull\<rparr> Map.empty)
     \<noteq> Responded 415 unsupportedTypePayload"
proof -
  have size: "\<not> jsGreater (contentLength \<lparr>headers = [js ''content-type'' \<mapsto> s], body = JNull\<rparr>) MAX_SIZE" for s
    using header_names_differ by (simp add: contentLength_cases jsGreater_def MAX_SIZE_def)
  have "js ''text/plain'' \<noteq> []"
    by (simp add: js_def)
  with type_check_415
    [of "\<lparr>headers = [js ''content-type'' \<mapsto> js ''text/plain''], body = JNull\<rparr>" Map.empty]
    size plain_not_allowed
  have "outcome (securityMiddleware
      \<lparr>headers = [js ''content-type'' \<mapsto> js ''text/plain''], body = JNull\<rparr> Map.empty)
     = Responded 415 unsupportedTypePayload"
    by simp
  moreover from type_check_415
    [of "\<lparr>headers = [js ''content-type'' \<mapsto> []], body = JNull\<rparr>" Map.empty]
  have "outcome (securityMiddleware
      \<lparr>headers = [js ''content-type'' \<mapsto> []], body = JNull\<rparr> Map.empty)
     \<noteq> Responded 415 unsupportedTypePayload"
    by simp
  ultimately show ?thesis by simp
qed

section \<open>The order of the checks\<close>

text \<open>
  C6. The checks run in the order size, content-type, depth, and the first that fails
  ends the call. A request over the size limit is answered 413 whatever its
  content-type and body, and only such a request is. One within the size limit with an
  unsupported content-type is answered 415 whatever its body, and only such a request
  is. One that passes both and has a container body of computed depth above 10 is
  answered 400, and only such a request is. Every rejection has one of the three codes,
  sets no response header and leaves the body as it was. A call ends in \<open>next()\<close> only
  when all three checks have passed (the depth of a container body was computed and is
  at most 10); then both headers are set and a container body is the one
  \<open>sanitizeObject\<close> left. Whenever the body has changed, all three checks had passed.
\<close>

theorem checks_in_order:
  "(jsGreater (contentLength req) MAX_SIZE \<longrightarrow>
      securityMiddleware req res =
        \<lparr>outcome = Responded 413 tooLargePayload, resHeaders = res, reqBody = body req\<rparr>)
   \<and> (\<not> jsGreater (contentLength req) MAX_SIZE \<and> contentType req \<noteq> []
       \<and> \<not> list_ex (includes_str (contentType req)) allowedTypes \<longrightarrow>
      securityMiddleware req res =
        \<lparr>outcome = Responded 415 unsupportedTypePayload, resHeaders = res, reqBody = body req\<rparr>)
   \<and> (\<forall>payload. outcome (securityMiddleware req res) = Responded 400 payload \<longrightarrow>
        \<not> jsGreater (contentLength req) MAX_SIZE
        \<and> (contentType req = [] \<or> list_ex (includes_str (contentType req)) allowedTypes)
        \<and> isContainer (body req)
        \<and> (\<exists>d. getObjectDepth (body req) 0 = Inr d \<and> d > 10))
   \<and> (\<forall>status payload. outcome (securityMiddleware req res) = Responded status payload \<longrightarrow>
        (status = 413 \<or> status = 415 \<or> status = 400)
        \<and> resHeaders (securityMiddleware req res) = res
        \<and> reqBody (securityMiddleware req res) = body req)
   \<and> (reqBody (securityMiddleware req res) \<noteq> body req \<longrightarrow>
        outcome (securityMiddleware req res) = Next)
   \<and> (\<not> jsGreater (contentLength req) MAX_SIZE
       \<and> (contentType req = [] \<or> list_ex (includes_str (contentType req)) allowedTypes)
       \<and> isContainer (body req)
       \<and> (\<exists>d. getObjectDepth (body req) 0 = Inr d \<and> d > 10) \<longrightarrow>
      securityMiddleware req res =
        \<lparr>outcome = Responded 400 tooDeepPayload, resHeaders = res, reqBody = body req\<rparr>)
   \<and> (outcome (securityMiddleware req res) = Next \<longrightarrow>
        \<not> jsGreater (contentLength req) MAX_SIZE
        \<and> (contentType req = [] \<or> list_ex (includes_str (contentType req)) allowedTypes)
        \<and> (isContainer (body req) \<longrightarrow> (\<exists>d. getObjectDepth (body req) 0 = Inr d \<and> d \<le> 10))
        \<and> resHeaders (securityMiddleware req res)
            = res(js ''X-RateLimit-Limit'' \<mapsto> js ''100'',
                  js ''X-Content-Type-Options'' \<mapsto> js ''nosniff'')
        \<and> reqBody (securityMiddleware req res)
            = (if isContainer (body req) then fst (sanitizeObject (body req)) else body req))
   \<and> (\<forall>payload. outcome (securityMiddleware req res) = Responded 413 payload \<longrightarrow>
        jsGreater (contentLength req) MAX_SIZE)
   \<and> (\<forall>payload. outcome (securityMiddleware req res) = Responded 415 payload \<longrightarrow>
        \<not> jsGreater (contentLength req) MAX_SIZE \<and> contentType req \<noteq> []
        \<and> \<not> list_ex (includes_str (contentType req)) allowedTypes)
   \<and> (reqBody (securityMiddleware req res) \<noteq> body req \<longrightarrow>
        \<not> jsGreater (contentLength req) MAX_SIZE
        \<and> (contentType req = [] \<or> list_ex (includes_str (contentType req)) allowedTypes)
        \<and> isContainer (body req)
        \<and> (\<exists>d. getObjectDepth (body req) 0 = Inr d \<and> d \<le> 10)
        \<and> reqBody (securityMiddleware req res) = fst (sanitizeObject (body req)))"
proof -
  note ends = securityMiddleware_too_large securityMiddleware_unsupported
    securityMiddleware_no_container securityMiddleware_shadowed
    securityMiddleware_too_deep securityMiddleware_sanitized
  have large: "securityMiddleware req res =
        \<lparr>outcome = Responded 413 tooLargePayload, resHeaders = res, reqBody = body req\<rparr>"
    if "jsGreater (contentLength req) MAX_SIZE"
    using that by (rule securityMiddleware_too_large)
  have unsupported: "securityMiddleware req res =
        \<lparr>outcome = Responded 415 unsupportedTypePayload, resHeaders = res, reqBody = body req\<rparr>"
    if "\<not> jsGreater (contentLength req) MAX_SIZE \<and> contentType req \<noteq> []
       \<and> \<not> list_ex (includes_str (contentType req)) allowedTypes"
    using that by (simp add: securityMiddleware_unsupported)
  have deep: "securityMiddleware req res =
        \<lparr>outcome = Responded 400 tooDeepPayload, resHeaders = res, reqBody = body req\<rparr>"
    if "\<not> jsGreater (contentLength req) MAX_SIZE
       \<and> (contentType req = [] \<or> list_ex (includes_str (contentType req)) allowedTypes)
       \<and> isContainer (body req)
       \<and> (\<exists>d. getObjectDepth (body req) 0 = Inr d \<and> d > 10)"
  proof -
    from that obtain d where d: "getObjectDepth (body req) 0 = Inr d" "d > 10" by blast
    from d(1) have "shadowFree (body req)"
      by (rule getObjectDepth_returns_shadowFree)
    moreover from d have "specDepth (body req) 0 > 10"
      using getObjectDepth_Inr_specDepth by blast
    ultimately show ?thesis
      using that by (simp add: securityMiddleware_too_deep)
  qed
  have r400: "\<not> jsGreater (contentLength req) MAX_SIZE
        \<and> (contentType req = [] \<or> list_ex (includes_str (contentType req)) allowedTypes)
        \<and> isContainer (body req)
        \<and> (\<exists>d. getObjectDepth (body req) 0 = Inr d \<and> d > 10)"
    if "outcome (securityMiddleware req res) = Responded 400 payload" for payload
    using that
    by - (rule securityMiddleware_cases [of req],
       simp_all add: ends getObjectDepth_shadowFree)
  have rejected: "(status = 413 \<or> status = 415 \<or> status = 400)
        \<and> resHeaders (securityMiddleware req res) = res
        \<and> reqBody (securityMiddleware req res) = body req"
    if "outcome (securityMiddleware req res) = Responded status payload" for status payload
    using that
    by - (rule securityMiddleware_cases [of req], simp_all add: ends)
  have passed: "\<not> jsGreater (contentLength req) MAX_SIZE
        \<and> (contentType req = [] \<or> list_ex (includes_str (contentType req)) allowedTypes)
        \<and> (isContainer (body req) \<longrightarrow> (\<exists>d. getObjectDepth (body req) 0 = Inr d \<and> d \<le> 10))
        \<and> resHeaders (securityMiddleware req res)
            = res(js ''X-RateLimit-Limit'' \<mapsto> js ''100'',
                  js ''X-Content-Type-Options'' \<mapsto> js ''nosniff'')
        \<and> reqBody (securityMiddleware req res)
            = (if isContainer (body req) then fst (sanitizeObject (body req)) else body req)"
    if "outcome (securityMiddleware req res) = Next"
    using that
    by - (rule securityMiddleware_cases [of req],
       simp_all add: ends getObjectDepth_shadowFree sanitizeObject_shadowFree)
  have r413: "jsGreater (contentLength req) MAX_SIZE"
    if "outcome (securityMiddleware req res) = Responded 413 payload" for payload
    using that
    by - (rule securityMiddleware_cases [of req], simp_all add: ends)
  have r415: "\<not> jsGreater (contentLength req) MAX_SIZE \<and> contentType req \<noteq> []
        \<and> \<not> list_ex (includes_str (contentType req)) allowedTypes"
    if "outcome (securityMiddleware req res) = Responded 415 payload" for payload
    using that
    by - (rule securityMiddleware_cases [of req], simp_all add: ends)
  have changed: "outcome (securityMiddleware req res) = Next
        \<and> isContainer (body req)
        \<and> reqBody (securityMiddleware req res) = fst (sanitizeObject (body req))"
    if "reqBody (securityMiddleware req res) \<noteq> body req"
    using that
    by - (rule securityMiddleware_cases [of req],
       simp_all add: ends sanitizeObject_shadowFree)
  have changed': "\<not> jsGreater (contentLength req) MAX_SIZE
        \<and> (contentType req = [] \<or> list_ex (includes_str (contentType req)) allowedTypes)
        \<and> isContainer (body req)
        \<and> (\<exists>d. getObjectDepth (body req) 0 = Inr d \<and> d \<le> 10)
        \<and> reqBody (securityMiddleware req res) = fst (sanitizeObject (body req))"
    if "reqBody (securityMiddleware req res) \<noteq> body req"
    using changed [OF that] passed by blast
  show ?thesis
    using large unsupported deep r400 rejected passed r413 r415 changed changed'
    by (intro conjI allI impI) blast+
qed

theorem checks_in_order_witness:
  "securityMiddleware
     \<lparr>headers = [js ''content-length'' \<mapsto> js ''1048577'',
                  js ''content-type'' \<mapsto> js ''text/plain''],
       body = nested 11 (JStr (js ''javascript:x''))\<rparr> Map.empty
   = \<lparr>outcome = Responded 413 tooLargePayload, resHeaders = Map.empty,
      reqBody = nested 11 (JStr (js ''javascript:x''))\<rparr>
   \<and> securityMiddleware
     \<lparr>headers = [js ''content-length'' \<mapsto> js ''1048576'',
                  js ''content-type'' \<mapsto> js ''text/plain''],
       body = nested 11 (JStr (js ''javascript:x''))\<rparr> Map.empty
   = \<lparr>outcome = Responded 415 unsupportedTypePayload, resHeaders = Map.empty,
      reqBody = nested 11 (JStr (js ''javascript:x''))\<rparr>
   \<and> securityMiddleware
     \<lparr>headers = [js ''content-length'' \<mapsto> js ''1048576'',
                  js ''content-type'' \<mapsto> js ''application/json''],
       body = nested 11 (JStr (js ''javascript:x''))\<rparr> Map.empty
   = \<lparr>outcome = Responded 400 tooDeepPayload, resHeaders = Map.empty,
      reqBody = nested 11 (JStr (js ''javascript:x''))\<rparr>
   \<and> securityMiddleware
     \<lparr>headers = [js ''content-length'' \<mapsto> js ''1048576'',
                  js ''content-type'' \<mapsto> js ''application/json''],
       body = nested 10 (JStr (js ''javascript:x''))\<rparr> Map.empty
   = \<lparr>outcome = Next,
      resHeaders = [js ''X-RateLimit-Limit'' \<mapsto> js ''100'',
                    js ''X-Content-Type-Options'' \<mapsto> js ''nosniff''],
      reqBody = nested 10 (JStr (js ''x''))\<rparr>"
proof -
  let ?s = "JStr (js ''javascript:x'')"
  let ?r1 = "\<lparr>headers = [js ''content-length'' \<mapsto> js ''1048577'',
                  js ''content-type'' \<mapsto> js ''text/plain''], body = nested 11 ?s\<rparr>"
  let ?r2 = "\<lparr>headers = [js ''content-length'' \<mapsto> js ''1048576'',
                  js ''content-type'' \<mapsto> js ''text/plain''], body = nested 11 ?s\<rparr>"
  let ?r3 = "\<lparr>headers = [js ''content-length'' \<mapsto> js ''1048576'',
                  js ''content-type'' \<mapsto> js ''application/json''], body = nested 11 ?s\<rparr>"
  let ?r4 = "\<lparr>headers = [js ''content-length'' \<mapsto> js ''1048576'',
                  js ''content-type'' \<mapsto> js ''application/json''], body = nested 10 ?s\<rparr>"
  have over: "parseInt (js ''1048577'') = Some 1048577"
    and at: "parseInt (js ''1048576'') = Some 1048576"
    by (simp_all add: parseInt_eval string_eval)
  have l1: "jsGreater (contentLength ?r1) MAX_SIZE"
    using over by (simp add: contentLength_cases jsGreater_def MAX_SIZE_def js_def)
  have l2: "\<not> jsGreater (contentLength ?r2) MAX_SIZE"
    and l3: "\<not> jsGreater (contentLength ?r3) MAX_SIZE"
    and l4: "\<not> jsGreater (contentLength ?r4) MAX_SIZE"
    using at header_names_differ
    by (simp_all add: contentLength_cases jsGreater_def MAX_SIZE_def js_def)
  have "contentType ?r2 = js ''text/plain''"
    by (simp add: contentType_def orDefault_def js_def)
  with plain_not_allowed
  have t2: "contentType ?r2 \<noteq> [] \<and> \<not> list_ex (includes_str (contentType ?r2)) allowedTypes"
    by (simp add: js_def)
  have "contentType ?r3 = js ''application/json''" "contentType ?r4 = js ''application/json''"
    by (simp_all add: contentType_def orDefault_def js_def)
  with allowed_json
  have t3: "contentType ?r3 = [] \<or> list_ex (includes_str (contentType ?r3)) allowedTypes"
    and t4: "contentType ?r4 = [] \<or> list_ex (includes_str (contentType ?r4)) allowedTypes"
    by simp_all
  have c3: "isContainer (body ?r3)" and c4: "isContainer (body ?r4)"
    by (simp_all add: eval_nat_numeral)
  have d3: "getObjectDepth (body ?r3) 0 = Inr 11 \<and> (11 :: nat) > 10"
    by (simp add: getObjectDepth_nested)
  have "shadowFree (body ?r4)" "specDepth (body ?r4) 0 \<le> 10"
    by (simp_all add: shadowFree_nested specDepth_nested)
  from securityMiddleware_sanitized [OF l4 t4 c4 this, of Map.empty]
  have pass: "securityMiddleware ?r4 Map.empty
      = \<lparr>outcome = Next,
         resHeaders = [js ''X-RateLimit-Limit'' \<mapsto> js ''100'',
                       js ''X-Content-Type-Options'' \<mapsto> js ''nosniff''],
         reqBody = sanitizeDeep (nested 10 ?s)\<rparr>"
    by simp
  have "sanitizeString (js ''javascript:x'') = js ''x''"
    by (simp add: sanitizeString_def removePatterns_def matchScript_def matchJavascript_def
        matchHandler_def string_eval)
  then have "sanitizeDeep (nested 10 ?s) = nested 10 (JStr (js ''x''))"
    using sanitizeDeep_nested [of 9 ?s] by simp
  with pass have r4: "securityMiddleware ?r4 Map.empty
      = \<lparr>outcome = Next,
         resHeaders = [js ''X-RateLimit-Limit'' \<mapsto> js ''100'',
                       js ''X-Content-Type-Options'' \<mapsto> js ''nosniff''],
         reqBody = nested 10 (JStr (js ''x''))\<rparr>"
    by simp
  from l2 t2
  have c2: "\<not> jsGreater (contentLength ?r2) MAX_SIZE \<and> contentType ?r2 \<noteq> []
       \<and> \<not> list_ex (includes_str (contentType ?r2)) allowedTypes"
    by (rule conjI)
  from l3 t3 c3 d3
  have h3: "\<not> jsGreater (contentLength ?r3) MAX_SIZE
       \<and> (contentType ?r3 = [] \<or> list_ex (includes_str (contentType ?r3)) allowedTypes)
       \<and> isContainer (body ?r3)
       \<and> (\<exists>d. getObjectDepth (body ?r3) 0 = Inr d \<and> d > 10)"
    by blast
  from checks_in_order [of ?r1 Map.empty, THEN conjunct1, THEN mp, OF l1]
  have r1: "securityMiddleware ?r1 Map.empty
      = \<lparr>outcome = Responded 413 tooLargePayload, resHeaders = Map.empty,
         reqBody = nested 11 ?s\<rparr>"
    by simp
  from checks_in_order [of ?r2 Map.empty, THEN conjunct2, THEN conjunct1, THEN mp, OF c2]
  have r2: "securityMiddleware ?r2 Map.empty
      = \<lparr>outcome = Responded 415 unsupportedTypePayload, resHeaders = Map.empty,
         reqBody = nested 11 ?s\<rparr>"
    by simp
  from checks_in_order [of ?r3 Map.empty, THEN conjunct2, THEN conjunct2, THEN conjunct2,
      THEN conjunct2, THEN conjunct2, THEN conjunct1, THEN mp, OF h3]
  have r3: "securityMiddleware ?r3 Map.empty
      = \<lparr>outcome = Responded 400 tooDeepPayload, resHeaders = Map.empty,
         reqBody = nested 11 ?s\<rparr>"
    by simp
  from r1 r2 r3 r4 show ?thesis
    by (intro conjI)
qed

section \<open>Sequences are sanitized too\<close>

text \<open>
  A string that is an element of a sequence is visited: \<open>typeof\<close> of an array is
  \<open>'object'\<close> and \<open>for-in\<close> enumerates its indices.
\<close>

theorem sequence_elements_counterexample:
  "sanitizeObject (JObj [(js ''tags'', JArr [JStr (js ''javascript:alert(1)'')])])
     = (JObj [(js ''tags'', JArr [JStr (js ''alert(1)'')])], None)"
proof -
  have "sanitizeString (js ''javascript:alert(1)'') = js ''alert(1)''"
    by (simp add: sanitizeString_def removePatterns_def matchScript_def matchJavascript_def
        matchHandler_def string_eval)
  moreover have "js ''hasOwnProperty'' \<noteq> js ''tags''"
    by (simp add: js_def)
  ultimately show ?thesis
    by (simp add: sanitizeObject_shadowFree sanitizeDeep_def)
qed

text \<open>
  C7, amended. The sanitizer recurses into sequences as it does into mappings.
  \<open>sanitizeObject\<close> returns normally exactly when no object of the tree has an own
  property named \<open>hasOwnProperty\<close>, and then every string that is a property value or
  an element of the root or of a container anywhere below it, in mappings and
  sequences alike, has been replaced by its sanitized form and nothing else has
  changed. In particular every element of a root sequence is sanitized.
\<close>

theorem sanitizeObject_visits_all:
  "(snd (sanitizeObject obj) = None \<longleftrightarrow> shadowFree obj)
   \<and> (shadowFree obj \<longrightarrow> fst (sanitizeObject obj) = sanitizeDeep obj)
   \<and> (shadowFree (JArr xs) \<longrightarrow> sanitizeObject (JArr xs) = (JArr (map sanitizeValue xs), None))"
proof (intro conjI impI)
  show "snd (sanitizeObject obj) = None \<longleftrightarrow> shadowFree obj"
    by (rule sanitizeObject_returns_iff)
next
  assume "shadowFree obj"
  then have "sanitizeObject obj = (sanitizeDeep obj, None)"
    by (rule sanitizeObject_shadowFree)
  then show "fst (sanitizeObject obj) = sanitizeDeep obj"
    by simp
next
  assume "shadowFree (JArr xs)"
  then have "sanitizeObject (JArr xs) = (sanitizeDeep (JArr xs), None)"
    by (rule sanitizeObject_shadowFree)
  also have "sanitizeDeep (JArr xs) = JArr (map sanitizeValue xs)"
    by (simp add: sanitizeDeep_def)
  finally show "sanitizeObject (JArr xs) = (JArr (map sanitizeValue xs), None)" .
qed

theorem sanitizeObject_visits_all_witness:
  "sanitizeObject (JArr [JStr (js ''javascript:a''), JArr [JStr (js ''javascript:b'')]])
     = (JArr [JStr (js ''a''), JArr [JStr (js ''b'')]], None)"
proof -
  have "sanitizeString (js ''javascript:a'') = js ''a''"
    and "sanitizeString (js ''javascript:b'') = js ''b''"
    by (simp_all add: sanitizeString_def removePatterns_def matchScript_def matchJavascript_def
        matchHandler_def string_eval)
  with sanitizeObject_visits_all
    [of _ "[JStr (js ''javascript:a''), JArr [JStr (js ''javascript:b'')]]"]
  show ?thesis by simp
qed

section \<open>Sanitizing twice\<close>




section \<open>Truncation\<close>

text \<open>
  A string of 10,050 characters from which the removals take 55 is sanitized to 9,995
  characters.
\<close>

theorem truncation_counterexample:
  "length (js ''javascript:javascript:javascript:javascript:javascript:'' @ replicate 9995 0x61)
     = 10050
   \<and> sanitizeString
        (js ''javascript:javascript:javascript:javascript:javascript:'' @ replicate 9995 0x61)
     = replicate 9995 0x61
   \<and> length (sanitizeString
        (js ''javascript:javascript:javascript:javascript:javascript:'' @ replicate 9995 0x61))
     = 9995"
proof -
  let ?t = "replicate 9995 (0x61 :: code_unit)"
  let ?s = "js ''javascript:javascript:javascript:javascript:javascript:'' @ ?t"
  have split: "?s = js ''javascript:'' @ js ''javascript:'' @ js ''javascript:''
                  @ js ''javascript:'' @ js ''javascript:'' @ ?t"
    by (simp add: js_def)
  have len: "length ?s = 10050"
    by (simp add: js_def)
  have "replaceAll matchScript ?s = ?s"
    by (rule replaceAll_no_match, rule matchScript_first) (auto simp: js_def cu_def)
  moreover have "replaceAll matchJavascript ?s = replaceAll matchJavascript ?t"
    unfolding split by (simp only: replaceAll_javascript_prefix)
  moreover have "replaceAll matchJavascript ?t = ?t"
    by (rule replaceAll_no_match, rule matchJavascript_first) (simp add: canonicalize_def)
  moreover have "replaceAll matchHandler ?t = ?t"
    by (rule replaceAll_no_match, rule matchHandler_first) (simp add: canonicalize_def)
  ultimately have "removePatterns ?s = ?t"
    by (simp add: removePatterns_def)
  then have "sanitizeString ?s = ?t"
    by (simp add: sanitizeString_def)
  with len show ?thesis by simp
qed

text \<open>
  C9, amended. When the result of the three removals is longer than 10,000, the
  sanitized string is its first 10,000 characters; otherwise it is that result. A
  sanitized string is never longer than 10,000. In particular a string of 10,050
  characters that none of the three removals changes is sanitized to its first 10,000
  characters.
\<close>

theorem truncation_to_10000:
  "(length (removePatterns s) > 10000 \<longrightarrow>
      sanitizeString s = take 10000 (removePatterns s) \<and> length (sanitizeString s) = 10000)
   \<and> (length (removePatterns s) \<le> 10000 \<longrightarrow> sanitizeString s = removePatterns s)
   \<and> length (sanitizeString s) \<le> 10000
   \<and> (length s = 10050 \<and> replaceAll matchScript s = s \<and> replaceAll matchJavascript s = s
        \<and> replaceAll matchHandler s = s \<longrightarrow>
        sanitizeString s = take 10000 s \<and> length (sanitizeString s) = 10000)"
proof (intro conjI impI)
  assume "length (removePatterns s) > 10000"
  then show "sanitizeString s = take 10000 (removePatterns s)"
    and "length (sanitizeString s) = 10000"
    by (simp_all add: sanitizeString_def Let_def)
next
  assume "length (removePatterns s) \<le> 10000"
  then show "sanitizeString s = removePatterns s"
    by (simp add: sanitizeString_def Let_def)
next
  show "length (sanitizeString s) \<le> 10000"
    by (rule sanitizeString_length)
next
  assume a: "length s = 10050 \<and> replaceAll matchScript s = s
    \<and> replaceAll matchJavascript s = s \<and> replaceAll matchHandler s = s"
  then have "removePatterns s = s"
    by (simp add: removePatterns_def)
  with a show "sanitizeString s = take 10000 s" and "length (sanitizeString s) = 10000"
    by (simp_all add: sanitizeString_def Let_def)
qed

theorem truncation_to_10000_witness:
  "length (replicate 10050 (0x61 :: code_unit)) = 10050
   \<and> sanitizeString (replicate 10050 0x61) = replicate 10000 0x61"
proof -
  let ?s = "replicate 10050 (0x61 :: code_unit)"
  have "replaceAll matchScript ?s = ?s"
    by (rule replaceAll_no_match, rule matchScript_first) simp
  moreover have "replaceAll matchJavascript ?s = ?s"
    by (rule replaceAll_no_match, rule matchJavascript_first) (simp add: canonicalize_def)
  moreover have "replaceAll matchHandler ?s = ?s"
    by (rule replaceAll_no_match, rule matchHandler_first) (simp add: canonicalize_def)
  ultimately have "sanitizeString ?s = take 10000 ?s"
    using truncation_to_10000 [of ?s] by simp
  then show ?thesis by simp
qed

section \<open>Termination\<close>

lemma getObjectDepth_rel_child:
  "getObjectDepth_rel (child, d') (obj, d) \<Longrightarrow> child \<in> set (ownValues obj) \<and> d' = d + 1"
  by (erule getObjectDepth_rel.cases) simp

lemma sanitizeObject_rel_child:
  "sanitizeObject_rel child obj \<Longrightarrow> child \<in> set (ownValues obj)"
  by (erule sanitizeObject_rel.cases) simp

text \<open>
  C10. Both traversals terminate on every body. \<open>getObjectDepth_rel\<close> and
  \<open>sanitizeObject_rel\<close> relate the argument of each recursive call of the definition
  to the argument of the call that makes it. Every recursive call is made on a property
  value or element of the current container (and \<open>getObjectDepth\<close> passes the depth
  plus one), and both relations are well-founded: a body is a finite tree, so no chain
  of calls descends for ever, and every argument is in the domain on which the
  recursion ends.
\<close>

theorem traversals_terminate:
  "wfp getObjectDepth_rel \<and> wfp sanitizeObject_rel
   \<and> (\<forall>obj d. getObjectDepth_dom (obj, d)) \<and> (\<forall>obj. sanitizeObject_dom obj)
   \<and> (\<forall>child d' obj d. getObjectDepth_rel (child, d') (obj, d)
         \<longrightarrow> child \<in> set (ownValues obj) \<and> d' = d + 1)
   \<and> (\<forall>child obj. sanitizeObject_rel child obj \<longrightarrow> child \<in> set (ownValues obj))"
proof (intro conjI allI impI)
  show depth: "wfp getObjectDepth_rel"
  proof (rule wfp_if_convertible_to_nat)
    fix x y :: "jsval \<times> nat"
    assume "getObjectDepth_rel x y"
    then show "size (fst x) < size (fst y)"
      by (cases x, cases y) (auto dest: getObjectDepth_rel_child simp: size_ownValues)
  qed
  show sanitize: "wfp sanitizeObject_rel"
  proof (rule wfp_if_convertible_to_nat)
    fix x y :: jsval
    assume "sanitizeObject_rel x y"
    then show "size x < size y"
      by (auto dest: sanitizeObject_rel_child simp: size_ownValues)
  qed
  show "getObjectDepth_dom (obj, d)" for obj d
    using depth by (rule accp_wfpD)
  show "sanitizeObject_dom obj" for obj
    using sanitize by (rule accp_wfpD)
qed (auto dest: getObjectDepth_rel_child sanitizeObject_rel_child)

theorem traversals_terminate_witness:
  "getObjectDepth_rel (JNum 1, 1) (JArr [JNum 1], 0)
   \<and> \<not> getObjectDepth_rel (JArr [JNum 1], 0) (JNum 1, 1)
   \<and> sanitizeObject_rel (JArr []) (JArr [JArr []])
   \<and> \<not> sanitizeObject_rel (JArr [JArr []]) (JArr [])"
proof -
  have "getObjectDepth_rel (JNum 1, 0 + 1) (JArr [JNum 1], 0)"
    by (rule getObjectDepth_rel.intros) (simp_all add: hasOwnPropertyCall_def)
  moreover have "sanitizeObject_rel (JArr []) (JArr [JArr []])"
    by (rule sanitizeObject_rel.intros) (simp_all add: hasOwnPropertyCall_def)
  moreover have "\<not> getObjectDepth_rel (JArr [JNum 1], 0) (JNum 1, 1)"
  proof
    assume "getObjectDepth_rel (JArr [JNum 1], 0) (JNum 1, 1)"
    with traversals_terminate have "JArr [JNum 1] \<in> set (ownValues (JNum 1))"
      by blast
    then show False by simp
  qed
  moreover have "\<not> sanitizeObject_rel (JArr [JArr []]) (JArr [])"
  proof
    assume "sanitizeObject_rel (JArr [JArr []]) (JArr [])"
    with traversals_terminate have "JArr [JArr []] \<in> set (ownValues (JArr []))"
      by blast
    then show False by simp
  qed
  ultimately show ?thesis by simp
qed

end
